theory Spec2Isabelle
  imports Main
begin

section \<open>Python strings\<close>

text \<open>
  A Python \<open>str\<close> is modelled as a \<open>string\<close>: a list of characters whose code
  points lie in 0..255. Within this range the predicates below agree with CPython:
  \<open>str.isspace\<close> holds for the code points 9-13, 28-32, 133 and 160, the regular
  expression class \<open>\d\<close> holds for the ten ASCII digits only, and \<open>str.lower\<close>
  maps A-Z and the upper-case letters of 192..222 (except 215) to the letter 32 above.
\<close>

definition py_isspace :: "char \<Rightarrow> bool" where
  "py_isspace c = (c \<in> set [CHR 0x09, CHR 0x0A, CHR 0x0B, CHR 0x0C, CHR 0x0D,
      CHR 0x1C, CHR 0x1D, CHR 0x1E, CHR 0x1F, CHR 0x20, CHR 0x85, CHR 0xA0])"

definition lstrip :: "string \<Rightarrow> string" where
  "lstrip s = dropWhile py_isspace s"

definition rstrip :: "string \<Rightarrow> string" where
  "rstrip s = rev (dropWhile py_isspace (rev s))"

definition strip :: "string \<Rightarrow> string" where
  "strip s = rstrip (lstrip s)"

definition is_digit :: "char \<Rightarrow> bool" where
  "is_digit c = (c \<in> set ''0123456789'')"

definition py_lower_char :: "char \<Rightarrow> char" where
  "py_lower_char c =
     (let n = (of_char c :: nat)
      in if (65 \<le> n \<and> n \<le> 90) \<or> (192 \<le> n \<and> n \<le> 222 \<and> n \<noteq> 215)
         then char_of (n + 32) else c)"

definition py_lower :: "string \<Rightarrow> string" where
  "py_lower s = map py_lower_char s"

section \<open>Type inference (enrichment.py)\<close>

definition ENRICHMENT_COMMON_MISSING :: "string set" where
  "ENRICHMENT_COMMON_MISSING = set [[], ''NA'', ''N/A'', ''na'', ''n/a'', ''NULL'', ''null'',
     ''nan'', ''NaN'', ''-999'', ''-999.0'', ''-999.000000'']"

text \<open>
  \<open>INT_RE = ^-?\d+$\<close> and \<open>FLOAT_RE = ^-?\d+\.\d+$\<close>, applied with \<open>match\<close>.
  Without the MULTILINE flag, \<open>$\<close> matches at the end of the string and also just
  before a newline that ends the string.
\<close>

definition digits1 :: "string \<Rightarrow> bool" where
  "digits1 s = (s \<noteq> [] \<and> list_all is_digit s)"

fun opt_minus :: "string \<Rightarrow> string" where
  "opt_minus [] = []"
| "opt_minus (c # s) = (if c = CHR ''-'' then s else c # s)"

definition int_literal :: "string \<Rightarrow> bool" where
  "int_literal s = digits1 (opt_minus s)"

definition float_literal :: "string \<Rightarrow> bool" where
  "float_literal s =
     (let t = opt_minus s
      in takeWhile is_digit t \<noteq> [] \<and>
         (case dropWhile is_digit t of
            [] \<Rightarrow> False
          | c # f \<Rightarrow> c = CHR ''.'' \<and> digits1 f))"

definition re_dollar :: "(string \<Rightarrow> bool) \<Rightarrow> string \<Rightarrow> bool" where
  "re_dollar p s = (p s \<or> (s \<noteq> [] \<and> last s = CHR 0x0A \<and> p (butlast s)))"

definition INT_RE :: "string \<Rightarrow> bool" where
  "INT_RE = re_dollar int_literal"

definition FLOAT_RE :: "string \<Rightarrow> bool" where
  "FLOAT_RE = re_dollar float_literal"

text \<open>
  The date parsers are library code: \<open>dateutil.parser.parse\<close> (present only when the
  import succeeded), \<open>datetime.fromisoformat\<close> and \<open>datetime.strptime\<close>. Each is a
  parameter that returns the parsed instant, or \<open>None\<close> where the library raises.
\<close>

record 'd date_lib =
  date_parse :: "(string \<Rightarrow> 'd option) option"
  fromisoformat :: "string \<Rightarrow> 'd option"
  strptime :: "string \<Rightarrow> string \<Rightarrow> 'd option"
  isoformat :: "'d \<Rightarrow> string"

definition datetime_fmts :: "string list" where
  "datetime_fmts = [''%Y-%m-%d %H:%M:%S'', ''%Y-%m-%d %H:%M'', ''%Y-%m-%d'', ''%d.%m.%Y'',
     ''%d/%m/%Y'', ''%m/%d/%Y'', ''%Y/%m/%d'', ''%d-%m-%Y'', ''%Y%m%dT%H%M%S'',
     ''%Y-%m-%dT%H:%M:%S%z'', ''%Y-%m-%dT%H:%M:%S'']"

definition parser_cascade :: "'d date_lib \<Rightarrow> string \<Rightarrow> bool" where
  "parser_cascade L s =
     (if (case date_parse L of None \<Rightarrow> False | Some f \<Rightarrow> f s \<noteq> None) then True
      else if fromisoformat L s \<noteq> None then True
      else list_ex (\<lambda>fmt. strptime L s fmt \<noteq> None) datetime_fmts)"

definition try_parse_datetime :: "'d date_lib \<Rightarrow> string \<Rightarrow> bool" where
  "try_parse_datetime L s0 =
     (if s0 = [] then False
      else let s = strip s0
           in if \<not> list_ex is_digit s then False
              else parser_cascade L s)"


definition infer_pruned :: "string list \<Rightarrow> string set \<Rightarrow> string list" where
  "infer_pruned values missing_values =
     map strip (filter (\<lambda>v. strip v \<notin> missing_values) values)"

definition infer_flags :: "'d date_lib \<Rightarrow> string \<Rightarrow> bool \<times> bool \<times> bool \<Rightarrow> bool \<times> bool \<times> bool" where
  "infer_flags L v st =
     (case st of (is_int, is_float, is_datetime) \<Rightarrow>
        (if \<not> INT_RE v then False else is_int,
         if \<not> (INT_RE v \<or> FLOAT_RE v) then False else is_float,
         if \<not> try_parse_datetime L v then False else is_datetime))"

definition infer_column_type :: "'d date_lib \<Rightarrow> string list \<Rightarrow> string set \<Rightarrow> string" where
  "infer_column_type L values missing_values =
     (let pruned = infer_pruned values missing_values
      in if pruned = [] then ''string''
         else case fold (infer_flags L) pruned (True, True, True) of
                (is_int, is_float, is_datetime) \<Rightarrow>
                  if is_int then ''integer''
                  else if is_float then ''number''
                  else if is_datetime then ''datetime''
                  else ''string'')"

section \<open>Numeric casts and min/max (enrichment.py)\<close>

text \<open>
  The built-in casts \<open>int(x)\<close> and \<open>float(x)\<close> on a string. Both strip surrounding
  whitespace (the code points 9-13, 32, 133 and 160, but not 28-31), take an optional sign,
  and allow single underscores between digits. Integers are unbounded, and the cap that
  CPython can put on the number of digits of a converted string is not modelled. The
  value of a float is library arithmetic: the syntax that \<open>float\<close> accepts is written
  out, the value it returns and its \<open>str\<close> are parameters.
\<close>

datatype py_error = ValueError | IndexError | FileNotFoundError

definition cast_space :: "char \<Rightarrow> bool" where
  "cast_space c = (c \<in> set [CHR 0x09, CHR 0x0A, CHR 0x0B, CHR 0x0C, CHR 0x0D,
      CHR 0x20, CHR 0x85, CHR 0xA0])"

definition cast_strip :: "string \<Rightarrow> string" where
  "cast_strip s = rev (dropWhile cast_space (rev (dropWhile cast_space s)))"

definition digit_val :: "char \<Rightarrow> int" where
  "digit_val c = of_char c - 48"

definition dec_value :: "string \<Rightarrow> int" where
  "dec_value s = foldl (\<lambda>a c. 10 * a + digit_val c) 0 (filter is_digit s)"

fun digitpart_from :: "bool \<Rightarrow> string \<Rightarrow> bool" where
  "digitpart_from prev [] = prev"
| "digitpart_from prev (c # s) =
     (if is_digit c then digitpart_from True s
      else c = CHR ''_'' \<and> prev \<and> digitpart_from False s)"

definition digitpart :: "string \<Rightarrow> bool" where
  "digitpart s = digitpart_from False s"

fun split_sign :: "string \<Rightarrow> bool \<times> string" where
  "split_sign [] = (False, [])"
| "split_sign (c # s) =
     (if c = CHR ''-'' then (True, s)
      else if c = CHR ''+'' then (False, s)
      else (False, c # s))"

definition py_int :: "string \<Rightarrow> py_error + int" where
  "py_int s =
     (case split_sign (cast_strip s) of (neg, body) \<Rightarrow>
        if digitpart body
        then Inr (if neg then - dec_value body else dec_value body)
        else Inl ValueError)"

definition exp_mark :: "char \<Rightarrow> bool" where
  "exp_mark c = (c = CHR ''e'' \<or> c = CHR ''E'')"

definition dot_mark :: "char \<Rightarrow> bool" where
  "dot_mark c = (c = CHR ''.'')"

definition float_number :: "string \<Rightarrow> bool" where
  "float_number b =
     (let m = takeWhile (\<lambda>c. \<not> exp_mark c) b;
          x = dropWhile (\<lambda>c. \<not> exp_mark c) b;
          ip = takeWhile (\<lambda>c. \<not> dot_mark c) m;
          fp = dropWhile (\<lambda>c. \<not> dot_mark c) m
      in (case fp of
            [] \<Rightarrow> digitpart ip
          | _ # f \<Rightarrow> (ip = [] \<and> digitpart f) \<or> (digitpart ip \<and> (f = [] \<or> digitpart f)))
         \<and> (case x of [] \<Rightarrow> True | _ # e \<Rightarrow> digitpart (snd (split_sign e))))"

definition py_float_syntax :: "string \<Rightarrow> bool" where
  "py_float_syntax s =
     (case split_sign (cast_strip s) of (neg, b) \<Rightarrow>
        py_lower b \<in> set [''inf'', ''infinity'', ''nan''] \<or> float_number b)"

record 'f float_lib =
  float_val :: "string \<Rightarrow> 'f"
  float_repr :: "'f \<Rightarrow> string"

definition py_float :: "'f float_lib \<Rightarrow> string \<Rightarrow> py_error + 'f" where
  "py_float F s = (if py_float_syntax s then Inr (float_val F s) else Inl ValueError)"

text \<open>
  A comprehension of casts raises as soon as one cast raises. \<open>min\<close> and \<open>max\<close> keep the
  first extremal element and raise on an empty list.
\<close>

fun cast_all :: "(string \<Rightarrow> py_error + 'a) \<Rightarrow> string list \<Rightarrow> py_error + 'a list" where
  "cast_all f [] = Inr []"
| "cast_all f (x # xs) =
     (case f x of
        Inl e \<Rightarrow> Inl e
      | Inr y \<Rightarrow> (case cast_all f xs of Inl e \<Rightarrow> Inl e | Inr ys \<Rightarrow> Inr (y # ys)))"

fun py_min :: "'a::linorder list \<Rightarrow> py_error + 'a" where
  "py_min [] = Inl ValueError"
| "py_min (x # xs) = Inr (fold (\<lambda>y m. if y < m then y else m) xs x)"

fun py_max :: "'a::linorder list \<Rightarrow> py_error + 'a" where
  "py_max [] = Inl ValueError"
| "py_max (x # xs) = Inr (fold (\<lambda>y m. if m < y then y else m) xs x)"

datatype 'f pyval = PNone | PInt int | PFloat 'f | PStr string

definition minmax_of :: "('a::linorder \<Rightarrow> 'f pyval) \<Rightarrow> py_error + 'a list \<Rightarrow> 'f pyval \<times> 'f pyval" where
  "minmax_of wrap r =
     (case r of
        Inl e \<Rightarrow> (PNone, PNone)
      | Inr nums \<Rightarrow>
          (case (py_min nums, py_max nums) of
             (Inr a, Inr b) \<Rightarrow> (wrap a, wrap b)
           | _ \<Rightarrow> (PNone, PNone)))"

definition compute_numeric_minmax ::
  "('f::linorder) float_lib \<Rightarrow> string list \<Rightarrow> string \<Rightarrow> 'f pyval \<times> 'f pyval" where
  "compute_numeric_minmax F pruned as_type =
     (if pruned = [] then (PNone, PNone)
      else if as_type = ''integer'' then minmax_of PInt (cast_all py_int pruned)
      else minmax_of PFloat (cast_all (py_float F) pruned))"

text \<open>
  \<open>compute_datetime_minmax\<close> parses every pruned value again (with \<open>dateutil\<close> alone when
  it is present, else ISO and the first nine formats), skips the values that do not parse
  and renders the earliest and latest instant.
\<close>

fun first_parse :: "(string \<Rightarrow> 'd option) \<Rightarrow> string list \<Rightarrow> 'd option" where
  "first_parse p [] = None"
| "first_parse p (fmt # fmts) = (case p fmt of Some d \<Rightarrow> Some d | None \<Rightarrow> first_parse p fmts)"

definition parse_for_minmax :: "'d date_lib \<Rightarrow> string \<Rightarrow> 'd option" where
  "parse_for_minmax L v =
     (case date_parse L of
        Some f \<Rightarrow> f v
      | None \<Rightarrow>
          (case fromisoformat L v of
             Some d \<Rightarrow> Some d
           | None \<Rightarrow> first_parse (strptime L v) (take 9 datetime_fmts)))"

definition compute_datetime_minmax ::
  "('d::linorder) date_lib \<Rightarrow> string list \<Rightarrow> 'f pyval \<times> 'f pyval" where
  "compute_datetime_minmax L pruned =
     (let parsed = List.map_filter (parse_for_minmax L) pruned
      in if parsed = [] then (PNone, PNone)
         else minmax_of (\<lambda>d. PStr (isoformat L d)) (Inr parsed))"

section \<open>Column profiles (make_icsv_from_csv, the per-column loop)\<close>

text \<open>
  The \<open>info\<close> dictionary of one column. A key that the code does not set is \<open>None\<close>
  here; a key set to Python's \<open>None\<close> is \<open>Some PNone\<close>. The \<open>constraints\<close> entry only
  feeds the schema document and is left out.
\<close>

record 'f col_info =
  ci_name :: string
  ci_type :: string
  ci_min :: "'f pyval option"
  ci_max :: "'f pyval option"
  ci_missing_count :: nat
  ci_description :: string

definition col_values_of :: "string list \<Rightarrow> string list" where
  "col_values_of cells = map strip cells"

definition col_pruned :: "string list \<Rightarrow> string list" where
  "col_pruned col_values =
     filter (\<lambda>v. v \<notin> ENRICHMENT_COMMON_MISSING \<and> v \<noteq> []) col_values"

definition col_missing_count :: "string list \<Rightarrow> nat" where
  "col_missing_count col_values =
     length (filter (\<lambda>v. v \<in> ENRICHMENT_COMMON_MISSING \<or> v = []) col_values)"

definition column_info ::
  "('d::linorder) date_lib \<Rightarrow> ('f::linorder) float_lib \<Rightarrow> string \<Rightarrow> string list \<Rightarrow> 'f col_info" where
  "column_info L F name cells =
     (let col_values = col_values_of cells;
          pruned = col_pruned col_values;
          inferred_type = infer_column_type L col_values ENRICHMENT_COMMON_MISSING;
          mm = (if inferred_type \<in> set [''integer'', ''number'']
                then Some (compute_numeric_minmax F pruned inferred_type)
                else if inferred_type = ''datetime''
                then Some (compute_datetime_minmax L pruned)
                else None)
      in \<lparr> ci_name = name, ci_type = inferred_type,
           ci_min = map_option fst mm, ci_max = map_option snd mm,
           ci_missing_count = col_missing_count col_values,
           ci_description = [] \<rparr>)"

section \<open>Dictionaries, joins and decimal rendering\<close>

text \<open>
  A Python dictionary keeps its keys in insertion order; it is an association list in
  which assigning to a present key replaces the value in place and assigning to a new key
  appends.
\<close>

fun dict_set :: "('k \<times> 'v) list \<Rightarrow> 'k \<Rightarrow> 'v \<Rightarrow> ('k \<times> 'v) list" where
  "dict_set [] k v = [(k, v)]"
| "dict_set ((k', v') # d) k v =
     (if k' = k then (k, v) # d else (k', v') # dict_set d k v)"

fun py_join :: "string \<Rightarrow> string list \<Rightarrow> string" where
  "py_join sep [] = []"
| "py_join sep [x] = x"
| "py_join sep (x # y # xs) = x @ sep @ py_join sep (y # xs)"

function str_digits :: "int \<Rightarrow> string" where
  "str_digits n =
     (if n < 10 then [char_of (48 + n)]
      else str_digits (n div 10) @ [char_of (48 + n mod 10)])"
  by pat_completeness auto
termination
  by (relation "measure nat") auto

declare str_digits.simps [simp del]

definition str_int :: "int \<Rightarrow> string" where
  "str_int i = (if i < 0 then CHR ''-'' # str_digits (- i) else str_digits i)"

definition str_nat :: "nat \<Rightarrow> string" where
  "str_nat n = str_digits (int n)"

definition py_str :: "'f float_lib \<Rightarrow> 'f pyval \<Rightarrow> string" where
  "py_str F v =
     (case v of
        PNone \<Rightarrow> ''None''
      | PInt i \<Rightarrow> str_int i
      | PFloat x \<Rightarrow> float_repr F x
      | PStr s \<Rightarrow> s)"

section \<open>Nodata token and geometry hint (enrichment.py)\<close>

definition count_placeholder :: "string \<Rightarrow> (string \<times> nat) list \<Rightarrow> (string \<times> nat) list" where
  "count_placeholder c counts =
     (if c \<in> ENRICHMENT_COMMON_MISSING
      then dict_set counts c ((case map_of counts c of None \<Rightarrow> 0 | Some n \<Rightarrow> n) + 1)
      else counts)"

definition placeholder_counts :: "string list list \<Rightarrow> (string \<times> nat) list" where
  "placeholder_counts rows = fold (\<lambda>r counts. fold count_placeholder r counts) rows []"

text \<open>\<open>max(items, key=...)\<close> replaces its candidate only by a strictly larger key.\<close>

definition max_item :: "(string \<times> nat) \<Rightarrow> (string \<times> nat) list \<Rightarrow> string \<times> nat" where
  "max_item first rest = fold (\<lambda>y m. if snd m < snd y then y else m) rest first"

definition resolve_nodata :: "string option \<Rightarrow> string list list \<Rightarrow> string" where
  "resolve_nodata nodata_override rows =
     (case nodata_override of
        Some v \<Rightarrow> v
      | None \<Rightarrow>
          (case placeholder_counts rows of
             [] \<Rightarrow> []
           | kv # rest \<Rightarrow> fst (max_item kv rest)))"

definition py_index :: "'a list \<Rightarrow> 'a \<Rightarrow> nat" where
  "py_index xs x = length (takeWhile (\<lambda>y. y \<noteq> x) xs)"

definition geo_step :: "nat \<times> string \<Rightarrow> nat option \<times> nat option \<Rightarrow> nat option \<times> nat option" where
  "geo_step ih st =
     (case (ih, st) of ((i, h), (lat_idx, lon_idx)) \<Rightarrow>
        (if h \<in> set [''lat'', ''latitude''] then Some i else lat_idx,
         if h \<in> set [''lon'', ''lng'', ''longitude''] then Some i else lon_idx))"

definition detect_geometry_hint :: "string list \<Rightarrow> string option \<times> string option" where
  "detect_geometry_hint header =
     (let lower = map py_lower header
      in if ''geometry'' \<in> set lower
         then (Some (''column:'' @ header ! py_index lower ''geometry''), None)
         else case fold geo_step (enumerate 0 lower) (None, None) of
                (Some lat_idx, Some lon_idx) \<Rightarrow>
                  (Some (''column:'' @ header ! lat_idx @ '','' @ header ! lon_idx),
                   Some ''EPSG:4326'')
              | _ \<Rightarrow> (None, None))"

section \<open>Metadata and fields blocks, writer (enrichment.py)\<close>

definition truthy :: "string option \<Rightarrow> bool" where
  "truthy x = (case x of None \<Rightarrow> False | Some s \<Rightarrow> s \<noteq> [])"

definition optional_line :: "bool \<Rightarrow> string \<Rightarrow> string option \<Rightarrow> string list" where
  "optional_line guard key x =
     (case x of None \<Rightarrow> [] | Some s \<Rightarrow> if guard then [key @ '' = '' @ s] else [])"

definition build_icsv_metadata_section ::
  "string \<Rightarrow> string \<Rightarrow> string \<Rightarrow> string list \<Rightarrow> nat \<Rightarrow> string option \<Rightarrow> string option \<Rightarrow>
   string option \<Rightarrow> string option \<Rightarrow> string list" where
  "build_icsv_metadata_section utcnow module_name field_delimiter header rows_count
     nodata_value geometry_hint srid_hint application_profile =
     [''iCSV_version = 1.0'']
     @ optional_line (truthy application_profile) ''application_profile'' application_profile
     @ [''field_delimiter = '' @ field_delimiter,
        ''rows = '' @ str_nat rows_count,
        ''columns = '' @ str_nat (length header),
        ''creation_date = '' @ utcnow @ ''Z'']
     @ optional_line (nodata_value \<noteq> None) ''nodata'' nodata_value
     @ optional_line (truthy geometry_hint) ''geometry'' geometry_hint
     @ optional_line (truthy srid_hint) ''srid'' srid_hint
     @ [''generator = DEVO '' @ module_name]"

definition join_vals :: "'f float_lib \<Rightarrow> string \<Rightarrow> 'f pyval list \<Rightarrow> string" where
  "join_vals F delim vals =
     py_join delim (map (\<lambda>v. if v = PNone then [] else py_str F v) vals)"

definition get_minmax :: "'f pyval option \<Rightarrow> 'f pyval" where
  "get_minmax x = (case x of None \<Rightarrow> PStr [] | Some PNone \<Rightarrow> PStr [] | Some v \<Rightarrow> v)"

definition build_fields_section ::
  "'f float_lib \<Rightarrow> string list \<Rightarrow> 'f col_info list \<Rightarrow> string \<Rightarrow> string list" where
  "build_fields_section F header col_infos field_delimiter =
     (let fields_vals = map PStr header;
          types_vals = map (\<lambda>c. PStr (ci_type c)) col_infos;
          min_vals = map (\<lambda>c. get_minmax (ci_min c)) col_infos;
          max_vals = map (\<lambda>c. get_minmax (ci_max c)) col_infos;
          missing_count_vals = map (\<lambda>c. PInt (int (ci_missing_count c))) col_infos;
          desc_vals = map (\<lambda>c. PStr (ci_description c)) col_infos
      in [''fields = '' @ join_vals F field_delimiter fields_vals,
          ''types = '' @ join_vals F field_delimiter types_vals,
          ''min = '' @ join_vals F field_delimiter min_vals,
          ''max = '' @ join_vals F field_delimiter max_vals,
          ''missing_count = '' @ join_vals F field_delimiter missing_count_vals,
          ''description = '' @ join_vals F field_delimiter desc_vals])"

text \<open>
  The CSV library: the sniffer (\<open>None\<close> where it raises), the reader of a whole text and
  the writer of one row, each for a given delimiter.
\<close>

record csv_lib =
  sniff :: "string \<Rightarrow> string option"
  csv_reader :: "string \<Rightarrow> string \<Rightarrow> string list list"
  csv_writerow :: "string \<Rightarrow> string list \<Rightarrow> string"

definition comment_lines :: "string list \<Rightarrow> string" where
  "comment_lines ls = concat (map (\<lambda>line. ''# '' @ line @ [CHR 0x0A]) ls)"

definition pad_row :: "nat \<Rightarrow> string list \<Rightarrow> string list" where
  "pad_row n r = (if length r < n then r @ replicate (n - length r) [] else r)"

definition write_icsv ::
  "csv_lib \<Rightarrow> string list \<Rightarrow> string list \<Rightarrow> string list \<Rightarrow> string list list \<Rightarrow> string \<Rightarrow> string" where
  "write_icsv C header_meta_lines fields_meta_lines data_header rows field_delimiter =
     ''# iCSV 1.0 UTF-8'' @ [CHR 0x0A]
     @ ''# [METADATA]'' @ [CHR 0x0A]
     @ comment_lines header_meta_lines
     @ [CHR 0x0A]
     @ ''# [FIELDS]'' @ [CHR 0x0A]
     @ comment_lines fields_meta_lines
     @ [CHR 0x0A]
     @ ''# [DATA]'' @ [CHR 0x0A]
     @ csv_writerow C field_delimiter data_header
     @ concat (map (\<lambda>r. csv_writerow C field_delimiter (pad_row (length data_header) r)) rows)"

section \<open>Reading the CSV and building the iCSV (enrichment.py)\<close>

text \<open>
  A text file opened with the default \<open>newline\<close> setting yields its lines with every
  line ending translated to a line feed; \<open>islice(fh, n)\<close> takes the first \<open>n\<close> of them.
\<close>

fun universal_newlines :: "string \<Rightarrow> string" where
  "universal_newlines [] = []"
| "universal_newlines [c] = (if c = CHR 0x0D then [CHR 0x0A] else [c])"
| "universal_newlines (c # d # s) =
     (if c = CHR 0x0D \<and> d = CHR 0x0A then CHR 0x0A # universal_newlines s
      else if c = CHR 0x0D then CHR 0x0A # universal_newlines (d # s)
      else c # universal_newlines (d # s))"

fun split_lines :: "string \<Rightarrow> string \<Rightarrow> string list" where
  "split_lines acc [] = (if acc = [] then [] else [acc])"
| "split_lines acc (c # s) =
     (if c = CHR 0x0A then (acc @ [c]) # split_lines [] s else split_lines (acc @ [c]) s)"

definition file_lines :: "string \<Rightarrow> string list" where
  "file_lines text = split_lines [] (universal_newlines text)"

definition first_lines :: "nat \<Rightarrow> string \<Rightarrow> string" where
  "first_lines n text = concat (take n (file_lines text))"

definition detect_delimiter :: "csv_lib \<Rightarrow> string \<Rightarrow> string" where
  "detect_delimiter C sample_text =
     (case sniff C sample_text of Some d \<Rightarrow> d | None \<Rightarrow> '','')"

text \<open>The local \<open>detected\<close> of \<open>load_rows_with_frictionless\<close>: the delimiter the rows are read with.\<close>

definition load_detected :: "csv_lib \<Rightarrow> string \<Rightarrow> string option \<Rightarrow> string" where
  "load_detected C text delimiter =
     (case delimiter of
        None \<Rightarrow> detect_delimiter C (first_lines 10 text)
      | Some d \<Rightarrow> d)"

definition load_rows_with_frictionless ::
  "csv_lib \<Rightarrow> string \<Rightarrow> string option \<Rightarrow> string list \<times> string list list \<times> nat" where
  "load_rows_with_frictionless C text delimiter =
     (let detected = load_detected C text delimiter
      in case csv_reader C text detected of
           [] \<Rightarrow> ([], [], 0)
         | r # rs \<Rightarrow> (map strip r, rs, length rs))"

text \<open>The local \<open>icsv_delim\<close> of \<open>make_icsv_from_csv\<close>.\<close>

definition choose_icsv_delim :: "csv_lib \<Rightarrow> string \<Rightarrow> string option \<Rightarrow> string" where
  "choose_icsv_delim C text user_delimiter =
     (let detected_delim =
            (case user_delimiter of
               None \<Rightarrow> detect_delimiter C (first_lines 5 text)
             | Some d \<Rightarrow> d)
      in if detected_delim \<noteq> '','' then detected_delim else ''|'')"

definition normalize_row :: "nat \<Rightarrow> string list \<Rightarrow> string list" where
  "normalize_row n r =
     (if length r < n then r @ replicate (n - length r) []
      else if length r > n then take n r
      else r)"

definition column_cells :: "string list list \<Rightarrow> nat \<Rightarrow> string list" where
  "column_cells rows i = map (\<lambda>r. r ! i) rows"

record ('d, 'f) runtime =
  dates :: "'d date_lib"
  floats :: "'f float_lib"
  csvs :: csv_lib
  utcnow_iso :: string
  dunder_name :: string

record 'f icsv_build =
  ib_header :: "string list"
  ib_delim :: string
  ib_nodata :: string
  ib_col_infos :: "'f col_info list"
  ib_metadata_lines :: "string list"
  ib_fields_lines :: "string list"
  ib_text :: string

text \<open>
  \<open>make_icsv_from_csv\<close> on the text of the input file. The result holds the text
  written to the iCSV file together with the intermediate values it was built from.
\<close>

definition make_icsv_from_csv ::
  "('d::linorder, 'f::linorder) runtime \<Rightarrow> string \<Rightarrow> string option \<Rightarrow> string option \<Rightarrow>
   string option \<Rightarrow> 'f icsv_build" where
  "make_icsv_from_csv R text user_delimiter nodata_override application_profile =
     (case load_rows_with_frictionless (csvs R) text user_delimiter of
        (header, rows0, row_count) \<Rightarrow>
          let icsv_delim = choose_icsv_delim (csvs R) text user_delimiter;
              nodata_value = resolve_nodata nodata_override rows0;
              rows = map (normalize_row (length header)) rows0;
              col_infos = map (\<lambda>(i, name). column_info (dates R) (floats R) name (column_cells rows i))
                              (enumerate 0 header);
              hints = detect_geometry_hint header;
              metadata_lines = build_icsv_metadata_section (utcnow_iso R) (dunder_name R)
                                 icsv_delim header row_count (Some nodata_value)
                                 (fst hints) (snd hints) application_profile;
              fields_lines = build_fields_section (floats R) header col_infos icsv_delim
          in \<lparr> ib_header = header, ib_delim = icsv_delim, ib_nodata = nodata_value,
               ib_col_infos = col_infos, ib_metadata_lines = metadata_lines,
               ib_fields_lines = fields_lines,
               ib_text = write_icsv (csvs R) metadata_lines fields_lines header rows icsv_delim \<rparr>)"

section \<open>Parsing and checking the metadata (validation.py)\<close>

function split_from :: "string \<Rightarrow> string \<Rightarrow> string \<Rightarrow> string list" where
  "split_from sep acc s =
     (if s = [] then [acc]
      else if sep \<noteq> [] \<and> take (length sep) s = sep
      then acc # split_from sep [] (drop (length sep) s)
      else split_from sep (acc @ [hd s]) (tl s))"
  by pat_completeness auto
termination
  by (relation "measure (\<lambda>(sep, acc, s). length s)") auto

declare split_from.simps [simp del]

definition py_split :: "string \<Rightarrow> string \<Rightarrow> py_error + string list" where
  "py_split sep s = (if sep = [] then Inl ValueError else Inr (split_from sep [] s))"

definition py_replace :: "string \<Rightarrow> string \<Rightarrow> string \<Rightarrow> string" where
  "py_replace old new s = py_join new (split_from old [] s)"

definition lstrip_chars :: "string \<Rightarrow> string \<Rightarrow> string" where
  "lstrip_chars cs s = dropWhile (\<lambda>c. c \<in> set cs) s"

definition rstrip_chars :: "string \<Rightarrow> string \<Rightarrow> string" where
  "rstrip_chars cs s = rev (dropWhile (\<lambda>c. c \<in> set cs) (rev s))"

definition startswith :: "string \<Rightarrow> string \<Rightarrow> bool" where
  "startswith s p = (take (length p) s = p)"

type_synonym metadata = "(string \<times> string) list"
type_synonym fields_meta = "(string \<times> string list) list"

fun scan_lines ::
  "string list \<Rightarrow> string option \<Rightarrow> metadata \<Rightarrow> fields_meta \<Rightarrow> metadata \<times> fields_meta" where
  "scan_lines [] section metadata fields_meta = (metadata, fields_meta)"
| "scan_lines (raw_line # rest) section metadata fields_meta =
     (let line = rstrip_chars [CHR 0x0A] raw_line
      in if strip line = ''# [METADATA]'' then scan_lines rest (Some ''metadata'') metadata fields_meta
         else if strip line = ''# [FIELDS]'' then scan_lines rest (Some ''fields'') metadata fields_meta
         else if strip line = ''# [DATA]'' then (metadata, fields_meta)
         else if startswith line ''#'' \<and> truthy section
         then (let content = strip (lstrip_chars ''#'' line)
               in if CHR ''='' \<in> set content
                  then (let key = strip (takeWhile (\<lambda>c. c \<noteq> CHR ''='') content);
                            val = strip (tl (dropWhile (\<lambda>c. c \<noteq> CHR ''='') content))
                        in if section = Some ''metadata''
                           then scan_lines rest section (dict_set metadata key val) fields_meta
                           else scan_lines rest section metadata
                                  (dict_set fields_meta key (map strip (split_from ''|'' [] val))))
                  else scan_lines rest section metadata fields_meta)
         else scan_lines rest section metadata fields_meta)"

fun resplit :: "string \<Rightarrow> fields_meta \<Rightarrow> py_error + fields_meta" where
  "resplit delim [] = Inr []"
| "resplit delim ((k, v) # d) =
     (case py_split delim (py_join ''|'' v) of
        Inl e \<Rightarrow> Inl e
      | Inr xs \<Rightarrow> (case resplit delim d of
                    Inl e \<Rightarrow> Inl e
                  | Inr d' \<Rightarrow> Inr ((k, map strip xs) # d')))"

definition parse_icsv_metadata :: "string \<Rightarrow> py_error + metadata \<times> fields_meta" where
  "parse_icsv_metadata text =
     (case scan_lines (file_lines text) None [] [] of
        (metadata, fields_meta) \<Rightarrow>
          (case map_of metadata ''field_delimiter'' of
             None \<Rightarrow> Inr (metadata, fields_meta)
           | Some delim \<Rightarrow>
               (case resplit delim fields_meta of
                  Inl e \<Rightarrow> Inl e
                | Inr corrected \<Rightarrow> Inr (metadata, corrected))))"

definition inconsistent :: "nat \<Rightarrow> string \<times> string list \<Rightarrow> bool" where
  "inconsistent num kv = (fst kv \<noteq> ''fields'' \<and> snd kv \<noteq> [] \<and> length (snd kv) \<noteq> num)"

definition inconsistency_error :: "nat \<Rightarrow> string \<times> string list \<Rightarrow> string" where
  "inconsistency_error num kv =
     ''Inconsistent count in '' @ [CHR 0x27] @ fst kv @ [CHR 0x27] @ '': expected ''
       @ str_nat num @ '', found '' @ str_nat (length (snd kv))"

definition check_metadata :: "metadata \<Rightarrow> fields_meta \<Rightarrow> string list" where
  "check_metadata metadata fields_meta =
     (if (case map_of metadata ''field_delimiter'' of None \<Rightarrow> True | Some v \<Rightarrow> v = [])
      then [''Missing required metadata: field_delimiter''] else [])
     @ (case map_of fields_meta ''fields'' of
          None \<Rightarrow> [''Missing [FIELDS] '' @ [CHR 0x27] @ ''fields'' @ [CHR 0x27] @ '' list'']
        | Some fs \<Rightarrow>
            (let num = length fs
             in map (inconsistency_error num) (filter (inconsistent num) fields_meta)))"

section \<open>Validation run (validation.py)\<close>

text \<open>
  \<open>_read_data_rows\<close> splits each data line with the CSV reader and takes the first row
  the reader yields.
\<close>

fun read_data_lines ::
  "csv_lib \<Rightarrow> string \<Rightarrow> string list \<Rightarrow> bool \<Rightarrow> string list \<Rightarrow> string list list \<Rightarrow>
   py_error + string list \<times> string list list" where
  "read_data_lines C delimiter [] in_data header rows = Inr (header, rows)"
| "read_data_lines C delimiter (raw # rest) in_data header rows =
     (let line = rstrip_chars [CHR 0x0A] raw
      in if strip line = ''# [DATA]'' then read_data_lines C delimiter rest True header rows
         else if \<not> in_data then read_data_lines C delimiter rest in_data header rows
         else if startswith (strip line) ''#'' then read_data_lines C delimiter rest in_data header rows
         else if strip line = [] then read_data_lines C delimiter rest in_data header rows
         else (case csv_reader C line delimiter of
                 [] \<Rightarrow> Inl IndexError
               | parts # _ \<Rightarrow>
                   if header = []
                   then read_data_lines C delimiter rest in_data (map strip parts) rows
                   else read_data_lines C delimiter rest in_data header (rows @ [parts])))"

definition read_data_rows :: "csv_lib \<Rightarrow> string \<Rightarrow> string \<Rightarrow> py_error + string list \<times> string list list" where
  "read_data_rows C text delimiter = read_data_lines C delimiter (file_lines text) False [] []"

record 'f schema_field =
  sf_name :: string
  sf_type :: string
  sf_description :: "string option"
  sf_minimum :: "'f pyval option"
  sf_maximum :: "'f pyval option"

definition entry_at :: "string list \<Rightarrow> nat \<Rightarrow> string option" where
  "entry_at xs i = (if i < length xs \<and> xs ! i \<noteq> [] then Some (xs ! i) else None)"

definition cast_bound :: "'f float_lib \<Rightarrow> string \<Rightarrow> 'f pyval" where
  "cast_bound F x =
     (if CHR ''.'' \<in> set x
      then (case py_float F x of Inr v \<Rightarrow> PFloat v | Inl e \<Rightarrow> PStr x)
      else (case py_int x of Inr i \<Rightarrow> PInt i | Inl e \<Rightarrow> PStr x))"

definition dict_get :: "('k \<times> 'v) list \<Rightarrow> 'k \<Rightarrow> 'v \<Rightarrow> 'v" where
  "dict_get d k dflt = (case map_of d k of None \<Rightarrow> dflt | Some v \<Rightarrow> v)"

definition build_schema_from_metadata :: "'f float_lib \<Rightarrow> fields_meta \<Rightarrow> 'f schema_field list" where
  "build_schema_from_metadata F fields_meta =
     (let fields = dict_get fields_meta ''fields'' [];
          types = dict_get fields_meta ''types'' [];
          description = dict_get fields_meta ''description'' [];
          min_vals = dict_get fields_meta ''min'' [];
          max_vals = dict_get fields_meta ''max'' []
      in map (\<lambda>(i, name).
                \<lparr> sf_name = name,
                  sf_type = (case entry_at types i of Some t \<Rightarrow> t | None \<Rightarrow> ''string''),
                  sf_description = entry_at description i,
                  sf_minimum = map_option (cast_bound F) (entry_at min_vals i),
                  sf_maximum = map_option (cast_bound F) (entry_at max_vals i) \<rparr>)
             (enumerate 0 fields))"

text \<open>
  The report of the external validator: its validity flag and the flattened issues
  (row number, field number, code, message), where a number may be absent.
\<close>

record report =
  valid :: bool
  issues :: "(nat option \<times> nat option \<times> string \<times> string) list"

definition ERROR_SUGGESTIONS :: "(string \<times> string) list" where
  "ERROR_SUGGESTIONS =
     [(''type-error'', ''Check that values in this column match the expected type (e.g., numbers, ISO datetimes).''),
      (''missing-cell'', ''Consider filling missing values, setting a nodata marker, or making the field optional.''),
      (''blank-row'', ''There is an unexpected blank row; remove or investigate formatting issues.''),
      (''extra-cell'', ''A row has too many cells: check delimiter or quoting.''),
      (''duplicate-label'', ''Duplicate column name: rename columns to unique names.''),
      (''default'', ''Inspect the flagged value and fix formatting or data entry issues.'')]"

definition num_or_unknown :: "nat option \<Rightarrow> string" where
  "num_or_unknown x = (case x of None \<Rightarrow> ''?'' | Some n \<Rightarrow> if n = 0 then ''?'' else str_nat n)"

definition format_report :: "report \<Rightarrow> string" where
  "format_report rep =
     (if valid rep then ''Data validation [OK]''
      else py_join [CHR 0x0A]
             (''Data validation errors:'' #
              concat (map (\<lambda>(rownum, fieldnum, code, message).
                       [''  Row '' @ num_or_unknown rownum @ '', Col '' @ num_or_unknown fieldnum
                          @ '' ['' @ code @ '']: '' @ message,
                        ''    Suggestion: ''
                          @ dict_get ERROR_SUGGESTIONS code (dict_get ERROR_SUGGESTIONS ''default'' [])])
                     (issues rep))))"

datatype step = ReadDataRows | BuildSchema | InvokeValidator

record validation_outcome =
  vo_valid :: bool
  vo_report_path :: string
  vo_files :: "string \<rightharpoonup> string"
  vo_steps :: "step list"

definition metadata_report :: "string list \<Rightarrow> string" where
  "metadata_report meta_errors =
     (if meta_errors \<noteq> []
      then concat (map (\<lambda>e. ''ERROR: '' @ e @ [CHR 0x0A]) meta_errors)
           @ [CHR 0x0A] @ ''Please fix metadata issues above.'' @ [CHR 0x0A]
      else ''OK: Metadata checks passed.'' @ [CHR 0x0A])"

definition abort_notice :: string where
  "abort_notice = ''Validation aborted due to metadata errors. See metadata report.'' @ [CHR 0x0A]"

text \<open>
  The part of \<open>validate_icsv\<close> after the metadata gate. The external validator takes the
  text of the temporary CSV and the schema; it returns its report, or the message of the
  exception it raised. The temporary file is removed on every path and is not recorded in
  the file system.
\<close>

definition validate_data ::
  "csv_lib \<Rightarrow> 'f float_lib \<Rightarrow> (string \<Rightarrow> 'f schema_field list \<Rightarrow> string + report) \<Rightarrow>
   (string \<rightharpoonup> string) \<Rightarrow> string \<Rightarrow> metadata \<Rightarrow> fields_meta \<Rightarrow> string \<Rightarrow>
   py_error + validation_outcome" where
  "validate_data C F validator files text metadata fields_meta out_report =
     (let delim = dict_get metadata ''field_delimiter'' ''|''
      in case read_data_rows C text delim of
           Inl e \<Rightarrow> Inl e
         | Inr (header, data_rows) \<Rightarrow>
             (let schema = build_schema_from_metadata F fields_meta;
                  tmp = csv_writerow C delim
                          (if header \<noteq> [] then header else dict_get fields_meta ''fields'' [])
                        @ concat (map (\<lambda>r. csv_writerow C delim (normalize_row (length header) r))
                                      data_rows);
                  steps = [ReadDataRows, BuildSchema, InvokeValidator]
              in case validator tmp schema of
                   Inr rep \<Rightarrow>
                     Inr \<lparr> vo_valid = valid rep, vo_report_path = out_report,
                           vo_files = files(out_report \<mapsto> format_report rep), vo_steps = steps \<rparr>
                 | Inl msg \<Rightarrow>
                     Inr \<lparr> vo_valid = False, vo_report_path = out_report,
                           vo_files = files(out_report \<mapsto> ''Validation failed: '' @ msg @ [CHR 0x0A]),
                           vo_steps = steps \<rparr>))"

text \<open>The local \<open>out_report\<close> of \<open>validate_icsv\<close>.\<close>

definition data_report_path :: "string \<Rightarrow> string option \<Rightarrow> string" where
  "data_report_path infile out_report =
     (if truthy out_report
      then (case out_report of Some p \<Rightarrow> p | None \<Rightarrow> [])
      else py_replace ''.icsv'' ''_data_report.txt'' infile)"

definition validate_icsv ::
  "csv_lib \<Rightarrow> 'f float_lib \<Rightarrow> (string \<Rightarrow> 'f schema_field list \<Rightarrow> string + report) \<Rightarrow>
   (string \<rightharpoonup> string) \<Rightarrow> string \<Rightarrow> string option \<Rightarrow> py_error + validation_outcome" where
  "validate_icsv C F validator files infile out_report0 =
     (let out_report = data_report_path infile out_report0
      in case files infile of
           None \<Rightarrow> Inl FileNotFoundError
         | Some text \<Rightarrow>
             (case parse_icsv_metadata text of
                Inl e \<Rightarrow> Inl e
              | Inr (metadata, fields_meta) \<Rightarrow>
                  (let meta_errors = check_metadata metadata fields_meta;
                       meta_report_path = py_replace ''.icsv'' ''_metadata_report.txt'' infile;
                       files1 = files(meta_report_path \<mapsto> metadata_report meta_errors)
                   in if meta_errors \<noteq> []
                      then Inr \<lparr> vo_valid = False, vo_report_path = out_report,
                                 vo_files = files1(out_report \<mapsto> abort_notice), vo_steps = [] \<rparr>
                      else validate_data C F validator files1
                             (case files1 infile of Some t \<Rightarrow> t | None \<Rightarrow> text)
                             metadata fields_meta out_report)))"

section \<open>A small runtime for concrete evaluations\<close>

text \<open>
  The library parameters above are instantiated by simple stand-ins wherever a statement
  is evaluated on a concrete input. The date parsers recognise the ten-character form
  \<open>YYYY-MM-DD\<close> and represent the day by the integer \<open>YYYYMMDD\<close>; floats are counted in
  millionths; the CSV reader and writer handle quote-free cells, the writer quoting a cell
  that holds the delimiter, a quote or a line break; the sniffer accepts the first
  candidate that occurs equally often, and at least once, on every line of the sample.
\<close>

definition iso_day :: "string \<Rightarrow> int option" where
  "iso_day s =
     (if length s = 10 \<and> list_all is_digit (take 4 s) \<and> s ! 4 = CHR ''-''
         \<and> list_all is_digit (take 2 (drop 5 s)) \<and> s ! 7 = CHR ''-''
         \<and> list_all is_digit (drop 8 s)
      then Some (dec_value s) else None)"

definition iso_day_repr :: "int \<Rightarrow> string" where
  "iso_day_repr n =
     (let s = str_digits n in take 4 s @ ''-'' @ take 2 (drop 4 s) @ ''-'' @ drop 6 s)"

definition stdlib_dates :: "int date_lib" where
  "stdlib_dates =
     \<lparr> date_parse = None,
       fromisoformat = iso_day,
       strptime = (\<lambda>s fmt. if fmt = ''%Y-%m-%d'' then iso_day s else None),
       isoformat = iso_day_repr \<rparr>"


definition micro_val :: "string \<Rightarrow> int" where
  "micro_val s =
     (case split_sign (cast_strip s) of (neg, b) \<Rightarrow>
        let ip = takeWhile is_digit b;
            fp = take 6 (takeWhile is_digit (drop 1 (dropWhile is_digit b)));
            v = dec_value ip * 1000000 + dec_value (fp @ replicate (6 - length fp) (CHR ''0''))
        in if neg then - v else v)"

definition micro_repr :: "int \<Rightarrow> string" where
  "micro_repr x =
     (let a = abs x;
          fr = str_digits (a mod 1000000);
          fr6 = replicate (6 - length fr) (CHR ''0'') @ fr;
          fr' = rev (dropWhile (\<lambda>c. c = CHR ''0'') (rev fr6))
      in (if x < 0 then ''-'' else []) @ str_digits (a div 1000000) @ ''.''
         @ (if fr' = [] then ''0'' else fr'))"

definition micro_floats :: "int float_lib" where
  "micro_floats = \<lparr> float_val = micro_val, float_repr = micro_repr \<rparr>"

definition plain_lines :: "string \<Rightarrow> string list" where
  "plain_lines text = map (rstrip_chars [CHR 0x0A]) (file_lines text)"

definition plain_reader :: "string \<Rightarrow> string \<Rightarrow> string list list" where
  "plain_reader text delim =
     map (\<lambda>line. if line = [] then [] else split_from delim [] line) (plain_lines text)"

definition plain_cell :: "string \<Rightarrow> string \<Rightarrow> string" where
  "plain_cell delim c =
     (if list_ex (\<lambda>ch. ch \<in> set delim \<or> ch \<in> set [CHR 0x22, CHR 0x0A, CHR 0x0D]) c
      then [CHR 0x22] @ concat (map (\<lambda>ch. if ch = CHR 0x22 then [ch, ch] else [ch]) c) @ [CHR 0x22]
      else c)"

definition plain_writerow :: "string \<Rightarrow> string list \<Rightarrow> string" where
  "plain_writerow delim row = py_join delim (map (plain_cell delim) row) @ [CHR 0x0D, CHR 0x0A]"

definition sniff_candidates :: "string list" where
  "sniff_candidates = ['','', ''|'', '';'', '':'', [CHR 0x09], ''/'']"

definition steady_count :: "string list \<Rightarrow> string \<Rightarrow> bool" where
  "steady_count ls d =
     (case ls of
        [] \<Rightarrow> False
      | l # rest \<Rightarrow>
          let n = length (split_from d [] l)
          in 1 < n \<and> list_all (\<lambda>l'. length (split_from d [] l') = n) rest)"

definition plain_sniff :: "string \<Rightarrow> string option" where
  "plain_sniff sample = find (steady_count (plain_lines sample)) sniff_candidates"

definition plain_csv :: csv_lib where
  "plain_csv = \<lparr> sniff = plain_sniff, csv_reader = plain_reader, csv_writerow = plain_writerow \<rparr>"

definition sample_runtime :: "(int, int) runtime" where
  "sample_runtime =
     \<lparr> dates = stdlib_dates, floats = micro_floats, csvs = plain_csv,
       utcnow_iso = ''2026-01-01T00:00:00'', dunder_name = ''devo.enrichment'' \<rparr>"

definition no_validator :: "string \<Rightarrow> int schema_field list \<Rightarrow> string + report" where
  "no_validator tmp schema = Inr \<lparr> valid = True, issues = [] \<rparr>"

subsection \<open>Sample inputs\<close>

definition text_of_lines :: "string list \<Rightarrow> string" where
  "text_of_lines ls = concat (map (\<lambda>l. l @ [CHR 0x0A]) ls)"

text \<open>A comma-separated file whose first column name holds a vertical bar.\<close>

definition pipe_header_csv :: string where
  "pipe_header_csv = text_of_lines [''a|b,c'', ''1,2'']"

definition pipe_header_metadata :: metadata where
  "pipe_header_metadata =
     [(''iCSV_version'', ''1.0''), (''field_delimiter'', ''|''), (''rows'', ''1''),
      (''columns'', ''2''), (''creation_date'', ''2026-01-01T00:00:00Z''), (''nodata'', []),
      (''generator'', ''DEVO devo.enrichment'')]"

definition pipe_header_fields :: fields_meta where
  "pipe_header_fields =
     [(''fields'', [''a'', ''b'', ''c'']), (''types'', [''integer'', ''integer'']),
      (''min'', [''1'', ''2'']), (''max'', [''1'', ''2'']), (''missing_count'', [''0'', ''0'']),
      (''description'', [[], []])]"

text \<open>A semicolon-separated file whose rows after the fifth line hold one cell only.\<close>

definition ragged_csv :: string where
  "ragged_csv = text_of_lines
     [''a;b'', ''1;2'', ''3;4'', ''5;6'', ''7;8'', ''9'', ''9'', ''9'', ''9'', ''9'', ''9'']"

text \<open>A file in which two missing-value tokens occur equally often.\<close>

definition tie_csv :: string where
  "tie_csv = text_of_lines [''a,b'', ''NA,'', '',NA'']"

definition plain_pair_csv :: string where
  "plain_pair_csv = text_of_lines [''a,b'', ''1,2'']"

text \<open>An iCSV whose \<open>types\<close> list is one entry short.\<close>

definition short_types_icsv :: string where
  "short_types_icsv = text_of_lines
     [''# iCSV 1.0 UTF-8'', ''# [METADATA]'', ''# field_delimiter = |'', [], ''# [FIELDS]'',
      ''# fields = a|b'', ''# types = integer'', [], ''# [DATA]'', ''a|b'', ''1|2'']"

section \<open>Auxiliary notions of the proofs\<close>

text \<open>The two tests of the header scan in \<open>detect_geometry_hint\<close>, on an original name.\<close>

definition is_lat :: "string \<Rightarrow> bool" where
  "is_lat h = (py_lower h \<in> set [''lat'', ''latitude''])"

definition is_lon :: "string \<Rightarrow> bool" where
  "is_lon h = (py_lower h \<in> set [''lon'', ''lng'', ''longitude''])"

text \<open>
  The keys of the placeholder counts stand in the order of their first occurrence among
  the cells: no key occurs before the first occurrence of a key that precedes it.
\<close>

definition key_order :: "string list \<Rightarrow> string list \<Rightarrow> bool" where
  "key_order ks cells =
     (\<forall>p k q. ks = p @ k # q \<longrightarrow> set q \<inter> set (takeWhile (\<lambda>c. c \<noteq> k) cells) = {})"

section \<open>Properties\<close>

subsection \<open>Whitespace stripping\<close>

lemma rstrip_decomp: "\<exists>t. s = rstrip s @ t"
proof -
  have "rev s = takeWhile py_isspace (rev s) @ dropWhile py_isspace (rev s)" by simp
  then have "s = rev (dropWhile py_isspace (rev s)) @ rev (takeWhile py_isspace (rev s))"
    by (metis rev_append rev_rev_ident)
  then show ?thesis unfolding rstrip_def by blast
qed

lemma rstrip_last: "rstrip s \<noteq> [] \<Longrightarrow> \<not> py_isspace (last (rstrip s))"
  unfolding rstrip_def
  by (metis hd_dropWhile last_rev rev_is_Nil_conv)

lemma strip_last: "strip s \<noteq> [] \<Longrightarrow> \<not> py_isspace (last (strip s))"
  unfolding strip_def by (rule rstrip_last)

lemma strip_hd: "strip s \<noteq> [] \<Longrightarrow> \<not> py_isspace (hd (strip s))"
proof -
  assume a: "strip s \<noteq> []"
  obtain t where t: "lstrip s = rstrip (lstrip s) @ t" using rstrip_decomp by blast
  from a have ne: "lstrip s \<noteq> []" unfolding strip_def rstrip_def by auto
  then have "\<not> py_isspace (hd (lstrip s))" unfolding lstrip_def by (metis hd_dropWhile)
  moreover have "hd (lstrip s) = hd (strip s)"
    using a t unfolding strip_def by (metis hd_append2)
  ultimately show ?thesis by simp
qed

lemma strip_idem: "strip (strip s) = strip s"
proof -
  have "lstrip (strip s) = strip s"
    using strip_hd[of s] unfolding lstrip_def[of "strip s"] by (cases "strip s") auto
  moreover have "rstrip (strip s) = strip s"
    unfolding strip_def rstrip_def by simp
  ultimately show ?thesis unfolding strip_def[of "strip s"] by simp
qed

lemma re_dollar_strip: "re_dollar p (strip s) = p (strip s)"
  unfolding re_dollar_def using strip_last[of s] by (auto simp: py_isspace_def)

subsection \<open>The pruned values and the three hypotheses\<close>

lemma empty_is_missing: "[] \<in> ENRICHMENT_COMMON_MISSING"
  by (simp add: ENRICHMENT_COMMON_MISSING_def)

lemma infer_pruned_filter:
  "infer_pruned vs ENRICHMENT_COMMON_MISSING =
     filter (\<lambda>v. v \<noteq> [] \<and> v \<notin> ENRICHMENT_COMMON_MISSING) (map strip vs)"
proof -
  have "(\<lambda>v. v \<noteq> [] \<and> v \<notin> ENRICHMENT_COMMON_MISSING) = (\<lambda>v. v \<notin> ENRICHMENT_COMMON_MISSING)"
    using empty_is_missing by auto
  then show ?thesis by (simp add: infer_pruned_def filter_map comp_def)
qed

lemma infer_pruned_stripped: "v \<in> set (infer_pruned vs M) \<Longrightarrow> strip v = v"
  by (auto simp: infer_pruned_def strip_idem)

lemma fold_infer_flags:
  "fold (infer_flags L) vs (a, b, c) =
     (a \<and> list_all INT_RE vs, b \<and> list_all (\<lambda>v. INT_RE v \<or> FLOAT_RE v) vs,
      c \<and> list_all (try_parse_datetime L) vs)"
  by (induction vs arbitrary: a b c) (auto simp: infer_flags_def)

lemma pruned_INT_RE:
  "list_all INT_RE (infer_pruned vs M) = list_all int_literal (infer_pruned vs M)"
proof -
  have "INT_RE v = int_literal v" if "v \<in> set (infer_pruned vs M)" for v
    using infer_pruned_stripped[OF that] re_dollar_strip[of int_literal v] by (simp add: INT_RE_def)
  then show ?thesis by (simp add: list_all_iff)
qed

lemma pruned_FLOAT_RE:
  "list_all (\<lambda>v. INT_RE v \<or> FLOAT_RE v) (infer_pruned vs M) =
   list_all (\<lambda>v. int_literal v \<or> float_literal v) (infer_pruned vs M)"
proof -
  have "(INT_RE v \<or> FLOAT_RE v) = (int_literal v \<or> float_literal v)"
    if "v \<in> set (infer_pruned vs M)" for v
    using infer_pruned_stripped[OF that] re_dollar_strip[of int_literal v]
      re_dollar_strip[of float_literal v] by (simp add: INT_RE_def FLOAT_RE_def)
  then show ?thesis by (simp add: list_all_iff)
qed

lemma infer_column_type_flags:
  "infer_column_type L vs M =
     (let pruned = infer_pruned vs M
      in if pruned = [] then ''string''
         else if list_all int_literal pruned then ''integer''
         else if list_all (\<lambda>v. int_literal v \<or> float_literal v) pruned then ''number''
         else if list_all (try_parse_datetime L) pruned then ''datetime''
         else ''string'')"
  by (simp add: infer_column_type_def Let_def fold_infer_flags pruned_INT_RE pruned_FLOAT_RE)

text \<open>
  Claim C1, as amended. The pruned values of a column are its whitespace-stripped cells
  without the empty ones and the missing-value tokens. When no pruned value is left the
  type is \<open>string\<close>. Otherwise the type is \<open>integer\<close> when every pruned value matches
  \<open>-?digits\<close>, else \<open>number\<close> when every pruned value matches \<open>-?digits\<close> or
  \<open>-?digits.digits\<close>, else \<open>datetime\<close> when \<open>try_parse_datetime\<close> accepts every pruned
  value, else \<open>string\<close>. So a column with at least one pruned value, all of them
  integer-looking, is \<open>integer\<close> whatever the date parsers say.
\<close>

theorem infer_column_type_priority:
  "infer_column_type L vs ENRICHMENT_COMMON_MISSING =
     (let pruned = filter (\<lambda>v. v \<noteq> [] \<and> v \<notin> ENRICHMENT_COMMON_MISSING) (map strip vs)
      in if pruned = [] then ''string''
         else if list_all int_literal pruned then ''integer''
         else if list_all (\<lambda>v. int_literal v \<or> float_literal v) pruned then ''number''
         else if list_all (try_parse_datetime L) pruned then ''datetime''
         else ''string'')"
  unfolding infer_column_type_flags infer_pruned_filter ..

theorem infer_column_type_priority_witness:
  "infer_column_type stdlib_dates [''20200101'', '' NA'', ''7 ''] ENRICHMENT_COMMON_MISSING
     = ''integer''"
  using infer_column_type_priority [of stdlib_dates "[''20200101'', '' NA'', ''7 '']"]
  by code_simp

text \<open>
  Claim C1 as it was stated, refuted.
  The claim as it was stated gives \<open>integer\<close> to every column whose pruned values all
  match \<open>-?digits\<close>. A column that holds missing tokens only has no pruned value, so all
  of them match, and its type is \<open>string\<close>.
\<close>

theorem all_missing_not_integer:
  "list_all int_literal (infer_pruned [''NA''] ENRICHMENT_COMMON_MISSING) \<and>
   infer_column_type stdlib_dates [''NA''] ENRICHMENT_COMMON_MISSING = ''string''"
  by code_simp

subsection \<open>Numeric casts\<close>




























subsection \<open>All-missing columns\<close>

text \<open>
  Claim C7. The missing count of a column is the number of its cells that, once
  stripped, are empty or in the missing-value set. When every cell is of that kind the
  inferred type is \<open>string\<close>, the profile has neither a \<open>min\<close> nor a \<open>max\<close> entry (both
  are rendered as the empty string in the FIELDS block), and the missing count is the
  number of cells.
\<close>

theorem all_missing_column:
  fixes F :: "('f::linorder) float_lib"
  shows "ci_missing_count (column_info L F name cells)
       = length (filter (\<lambda>c. strip c = [] \<or> strip c \<in> ENRICHMENT_COMMON_MISSING) cells)
   \<and> (list_all (\<lambda>c. strip c = [] \<or> strip c \<in> ENRICHMENT_COMMON_MISSING) cells \<longrightarrow>
        ci_type (column_info L F name cells) = ''string''
        \<and> ci_min (column_info L F name cells) = None
        \<and> ci_max (column_info L F name cells) = None
        \<and> join_vals F delim [get_minmax (ci_min (column_info L F name cells))] = []
        \<and> join_vals F delim [get_minmax (ci_max (column_info L F name cells))] = []
        \<and> ci_missing_count (column_info L F name cells) = length cells)"
proof -
  have mc: "ci_missing_count (column_info L F name cells)
       = length (filter (\<lambda>c. strip c = [] \<or> strip c \<in> ENRICHMENT_COMMON_MISSING) cells)"
  proof -
    have "(\<lambda>c. strip c \<in> ENRICHMENT_COMMON_MISSING \<or> strip c = [])
        = (\<lambda>c. strip c = [] \<or> strip c \<in> ENRICHMENT_COMMON_MISSING)" by auto
    then show ?thesis
      by (simp add: column_info_def Let_def col_missing_count_def col_values_of_def filter_map comp_def)
  qed
  have rest: "ci_type (column_info L F name cells) = ''string''
        \<and> ci_min (column_info L F name cells) = None
        \<and> ci_max (column_info L F name cells) = None
        \<and> ci_missing_count (column_info L F name cells) = length cells"
    if a: "list_all (\<lambda>c. strip c = [] \<or> strip c \<in> ENRICHMENT_COMMON_MISSING) cells"
  proof -
    from a have "filter (\<lambda>v. v \<noteq> [] \<and> v \<notin> ENRICHMENT_COMMON_MISSING) (map strip (map strip cells)) = []"
      by (auto simp: filter_empty_conv list_all_iff strip_idem)
    then have "infer_pruned (col_values_of cells) ENRICHMENT_COMMON_MISSING = []"
      unfolding infer_pruned_filter col_values_of_def .
    then have t: "infer_column_type L (col_values_of cells) ENRICHMENT_COMMON_MISSING = ''string''"
      by (simp add: infer_column_type_def)
    from a have "filter (\<lambda>c. strip c = [] \<or> strip c \<in> ENRICHMENT_COMMON_MISSING) cells = cells"
      by (simp add: list_all_iff)
    with mc t show ?thesis by (simp add: column_info_def Let_def)
  qed
  from mc rest show ?thesis by (auto simp: get_minmax_def join_vals_def py_str_def)
qed

theorem all_missing_column_witness:
  "list_all (\<lambda>c. strip c = [] \<or> strip c \<in> ENRICHMENT_COMMON_MISSING) [''NA'', ''  '', '' -999'']
   \<and> ci_type (column_info stdlib_dates micro_floats ''x'' [''NA'', ''  '', '' -999'']) = ''string''
   \<and> ci_min (column_info stdlib_dates micro_floats ''x'' [''NA'', ''  '', '' -999'']) = None
   \<and> ci_missing_count (column_info stdlib_dates micro_floats ''x'' [''NA'', ''  '', '' -999'']) = 3"
proof -
  have h: "list_all (\<lambda>c. strip c = [] \<or> strip c \<in> ENRICHMENT_COMMON_MISSING) [''NA'', ''  '', '' -999'']"
    by code_simp
  from all_missing_column [of stdlib_dates micro_floats "''x''" "[''NA'', ''  '', '' -999'']"] h
  show ?thesis by simp
qed

subsection \<open>Geometry hint\<close>

lemma enumerate_snoc: "enumerate n (xs @ [x]) = enumerate n xs @ [(n + length xs, x)]"
  by (simp add: enumerate_append_eq)

lemma geo_fold:
  "\<exists>lat lon. fold geo_step (enumerate 0 (map py_lower header)) (None, None) = (lat, lon)
     \<and> (case lat of None \<Rightarrow> filter is_lat header = []
         | Some i \<Rightarrow> filter is_lat header \<noteq> [] \<and> header ! i = last (filter is_lat header)
                     \<and> i < length header)
     \<and> (case lon of None \<Rightarrow> filter is_lon header = []
         | Some i \<Rightarrow> filter is_lon header \<noteq> [] \<and> header ! i = last (filter is_lon header)
                     \<and> i < length header)"
proof (induction header rule: rev_induct)
  case Nil
  then show ?case by simp
next
  case (snoc h hs)
  then obtain lat lon
    where st: "fold geo_step (enumerate 0 (map py_lower hs)) (None, None) = (lat, lon)"
    and la: "(case lat of None \<Rightarrow> filter is_lat hs = []
         | Some i \<Rightarrow> filter is_lat hs \<noteq> [] \<and> hs ! i = last (filter is_lat hs) \<and> i < length hs)"
    and lo: "(case lon of None \<Rightarrow> filter is_lon hs = []
         | Some i \<Rightarrow> filter is_lon hs \<noteq> [] \<and> hs ! i = last (filter is_lon hs) \<and> i < length hs)"
    by blast
  have step: "fold geo_step (enumerate 0 (map py_lower (hs @ [h]))) (None, None)
      = (if is_lat h then Some (length hs) else lat, if is_lon h then Some (length hs) else lon)"
    by (simp add: enumerate_snoc st geo_step_def is_lat_def is_lon_def)
  have A: "(case (if is_lat h then Some (length hs) else lat) of
           None \<Rightarrow> filter is_lat (hs @ [h]) = []
         | Some i \<Rightarrow> filter is_lat (hs @ [h]) \<noteq> []
                     \<and> (hs @ [h]) ! i = last (filter is_lat (hs @ [h])) \<and> i < length (hs @ [h]))"
    using la by (auto simp: nth_append split: option.splits)
  have B: "(case (if is_lon h then Some (length hs) else lon) of
           None \<Rightarrow> filter is_lon (hs @ [h]) = []
         | Some i \<Rightarrow> filter is_lon (hs @ [h]) \<noteq> []
                     \<and> (hs @ [h]) ! i = last (filter is_lon (hs @ [h])) \<and> i < length (hs @ [h]))"
    using lo by (auto simp: nth_append split: option.splits)
  show ?case using step A B by blast
qed

lemma index_find:
  "x \<in> set (map f xs) \<Longrightarrow> find (\<lambda>h. f h = x) xs = Some (xs ! py_index (map f xs) x)"
  unfolding py_index_def by (induction xs) auto

lemma find_None_map: "x \<notin> set (map f xs) \<Longrightarrow> find (\<lambda>h. f h = x) xs = None"
  by (induction xs) auto

text \<open>
  Claim C8. When some column name is \<open>geometry\<close> in lower case, the hint is
  \<open>column:\<close> followed by the original name of the first such column, with no SRID.
  Otherwise, when the header has a column whose lower-cased name is \<open>lat\<close> or
  \<open>latitude\<close> and one whose lower-cased name is \<open>lon\<close>, \<open>lng\<close> or \<open>longitude\<close>, the
  hint is \<open>column:\<close> followed by the last such latitude name, a comma and the last such
  longitude name, with SRID \<open>EPSG:4326\<close>. Otherwise there is no hint and no SRID.
\<close>

theorem detect_geometry_hint_spec:
  "detect_geometry_hint header =
     (case find (\<lambda>h. py_lower h = ''geometry'') header of
        Some g \<Rightarrow> (Some (''column:'' @ g), None)
      | None \<Rightarrow>
          (let lats = filter (\<lambda>h. py_lower h \<in> set [''lat'', ''latitude'']) header;
               lons = filter (\<lambda>h. py_lower h \<in> set [''lon'', ''lng'', ''longitude'']) header
           in if lats \<noteq> [] \<and> lons \<noteq> []
              then (Some (''column:'' @ last lats @ '','' @ last lons), Some ''EPSG:4326'')
              else (None, None)))"
proof (cases "''geometry'' \<in> set (map py_lower header)")
  case True
  then show ?thesis
    using index_find[OF True] by (simp add: detect_geometry_hint_def)
next
  case False
  obtain lat lon
    where st: "fold geo_step (enumerate 0 (map py_lower header)) (None, None) = (lat, lon)"
    and la: "(case lat of None \<Rightarrow> filter is_lat header = []
         | Some i \<Rightarrow> filter is_lat header \<noteq> [] \<and> header ! i = last (filter is_lat header)
                     \<and> i < length header)"
    and lo: "(case lon of None \<Rightarrow> filter is_lon header = []
         | Some i \<Rightarrow> filter is_lon header \<noteq> [] \<and> header ! i = last (filter is_lon header)
                     \<and> i < length header)"
    using geo_fold[of header] by blast
  have eq1: "filter (\<lambda>h. py_lower h \<in> set [''lat'', ''latitude'']) header = filter is_lat header"
    by (simp add: is_lat_def[abs_def])
  have eq2: "filter (\<lambda>h. py_lower h \<in> set [''lon'', ''lng'', ''longitude'']) header
           = filter is_lon header"
    by (simp add: is_lon_def[abs_def])
  have "detect_geometry_hint header =
      (case (lat, lon) of
         (Some lat_idx, Some lon_idx) \<Rightarrow>
           (Some (''column:'' @ header ! lat_idx @ '','' @ header ! lon_idx), Some ''EPSG:4326'')
       | _ \<Rightarrow> (None, None))"
    using False st by (simp add: detect_geometry_hint_def)
  then show ?thesis
    unfolding find_None_map[OF False] eq1 eq2 Let_def
    using la lo by (auto split: option.splits)
qed

theorem detect_geometry_hint_spec_witness:
  "detect_geometry_hint [''id'', ''lat'', ''lon''] = (Some ''column:lat,lon'', Some ''EPSG:4326'')
   \<and> detect_geometry_hint [''id'', ''Geometry''] = (Some ''column:Geometry'', None)
   \<and> detect_geometry_hint [''LAT'', ''lng'', ''Latitude'', ''lon'']
       = (Some ''column:Latitude,lon'', Some ''EPSG:4326'')"
  using detect_geometry_hint_spec [of "[''id'', ''lat'', ''lon'']"]
    detect_geometry_hint_spec [of "[''id'', ''Geometry'']"]
    detect_geometry_hint_spec [of "[''LAT'', ''lng'', ''Latitude'', ''lon'']"]
  by code_simp

subsection \<open>The digit pre-check of the datetime hypothesis\<close>






subsection \<open>Metadata consistency check\<close>

lemma check_metadata_split:
  "check_metadata metadata fields_meta =
     (if map_of metadata ''field_delimiter'' = None \<or> map_of metadata ''field_delimiter'' = Some []
      then [''Missing required metadata: field_delimiter''] else [])
     @ (case map_of fields_meta ''fields'' of
          None \<Rightarrow> [''Missing [FIELDS] '' @ [CHR 0x27] @ ''fields'' @ [CHR 0x27] @ '' list'']
        | Some fs \<Rightarrow> map (inconsistency_error (length fs))
                       (filter (inconsistent (length fs)) fields_meta))"
  by (auto simp: check_metadata_def Let_def split: option.splits)

lemma filter_nonempty_ex: "(filter P xs \<noteq> []) = list_ex P xs"
  by (induction xs) auto

lemma map_of_filter_key:
  "map_of (filter (\<lambda>kv. fst kv = k \<or> Q kv) d) k = map_of d k"
  by (induction d) auto

lemma filter_inconsistent_nonempty:
  "filter (inconsistent n) (filter (\<lambda>kv. fst kv = ''fields'' \<or> snd kv \<noteq> []) d)
     = filter (inconsistent n) d"
  by (induction d) (auto simp: inconsistent_def)

text \<open>
  Claim C4. \<open>check_metadata\<close> is a total function to a list of messages. The list is
  not empty exactly when \<open>field_delimiter\<close> is absent from the metadata or empty, or
  \<open>fields\<close> is absent from the FIELDS map, or \<open>fields\<close> is present and some other key
  has a non-empty list whose length differs from that of the \<open>fields\<close> list. Lists that
  are present and empty contribute nothing: removing them from the FIELDS map (the
  \<open>fields\<close> entry apart) leaves the result unchanged.
\<close>

theorem check_metadata_nonempty_iff:
  "(check_metadata metadata fields_meta \<noteq> []) =
     (map_of metadata ''field_delimiter'' = None \<or> map_of metadata ''field_delimiter'' = Some []
      \<or> map_of fields_meta ''fields'' = None
      \<or> (\<exists>fs. map_of fields_meta ''fields'' = Some fs \<and>
            list_ex (\<lambda>kv. fst kv \<noteq> ''fields'' \<and> snd kv \<noteq> [] \<and> length (snd kv) \<noteq> length fs)
              fields_meta))
   \<and> check_metadata metadata (filter (\<lambda>kv. fst kv = ''fields'' \<or> snd kv \<noteq> []) fields_meta)
       = check_metadata metadata fields_meta"
proof
  have inc: "inconsistent n = (\<lambda>kv. fst kv \<noteq> ''fields'' \<and> snd kv \<noteq> [] \<and> length (snd kv) \<noteq> n)" for n
    by (auto simp: inconsistent_def)
  show "(check_metadata metadata fields_meta \<noteq> []) =
     (map_of metadata ''field_delimiter'' = None \<or> map_of metadata ''field_delimiter'' = Some []
      \<or> map_of fields_meta ''fields'' = None
      \<or> (\<exists>fs. map_of fields_meta ''fields'' = Some fs \<and>
            list_ex (\<lambda>kv. fst kv \<noteq> ''fields'' \<and> snd kv \<noteq> [] \<and> length (snd kv) \<noteq> length fs)
              fields_meta))"
    unfolding check_metadata_split
    by (cases "map_of fields_meta ''fields''") (auto simp: filter_nonempty_ex inc)
  show "check_metadata metadata (filter (\<lambda>kv. fst kv = ''fields'' \<or> snd kv \<noteq> []) fields_meta)
       = check_metadata metadata fields_meta"
    unfolding check_metadata_split
    by (cases "map_of fields_meta ''fields''")
       (simp_all add: map_of_filter_key filter_inconsistent_nonempty del: filter_filter)
qed

theorem check_metadata_nonempty_iff_witness:
  "check_metadata [(''field_delimiter'', ''|'')]
     [(''fields'', [''a'', ''b'']), (''types'', [''integer'']), (''min'', [])] \<noteq> []
   \<and> check_metadata [(''field_delimiter'', ''|'')]
     [(''fields'', [''a'', ''b'']), (''types'', [''x'', ''y'']), (''min'', [])] = []"
  using check_metadata_nonempty_iff [of "[(''field_delimiter'', ''|'')]"
      "[(''fields'', [''a'', ''b'']), (''types'', [''integer'']), (''min'', [])]"]
    check_metadata_nonempty_iff [of "[(''field_delimiter'', ''|'')]"
      "[(''fields'', [''a'', ''b'']), (''types'', [''x'', ''y'']), (''min'', [])]"]
  by simp

subsection \<open>The metadata gate of a validation run\<close>

lemma filter_single:
  "distinct (map fst d) \<Longrightarrow> map_of d k = Some v \<Longrightarrow> P (k, v) \<Longrightarrow>
   list_all (\<lambda>kv. fst kv = k \<or> \<not> P kv) d \<Longrightarrow> filter P d = [(k, v)]"
proof (induction d)
  case Nil
  then show ?case by simp
next
  case (Cons a d)
  show ?case
  proof (cases "fst a = k")
    case True
    with Cons.prems have a: "a = (k, v)" by (cases a) auto
    from Cons.prems True have "list_all (\<lambda>kv. \<not> P kv) d"
      by (auto simp: list_all_iff) (metis fst_conv image_eqI)+
    then have "filter P d = []" by (induction d) auto
    with a Cons.prems show ?thesis by simp
  next
    case False
    with Cons.prems have "\<not> P a" by auto
    moreover from Cons.prems False have "filter P d = [(k, v)]"
      by (intro Cons.IH) (auto split: if_splits)
    ultimately show ?thesis by simp
  qed
qed

lemma pipe_header_parse:
  "parse_icsv_metadata (ib_text (make_icsv_from_csv sample_runtime pipe_header_csv None None None))
     = Inr (pipe_header_metadata, pipe_header_fields)"
  by code_simp

text \<open>
  Claim C5, as amended. When the metadata of the input file parses and \<open>check_metadata\<close>
  returns errors, \<open>validate_icsv\<close> returns \<open>False\<close> with the path of the data report; it
  reads no data row, builds no schema and does not invoke the validator; the metadata
  report holds one \<open>ERROR:\<close> line for each error, followed by the hint, and the data
  report holds the abort notice. There is one inconsistency error for each FIELDS key
  with a non-empty list of another length than \<open>fields\<close>: when \<open>types\<close> is non-empty
  and shorter than \<open>fields\<close> and every other list is empty or as long as \<open>fields\<close>, the
  error about \<open>types\<close> is the only inconsistency error.
\<close>

theorem metadata_gate:
  assumes "files infile = Some contents"
    and "parse_icsv_metadata contents = Inr (metadata, fields_meta)"
    and "check_metadata metadata fields_meta \<noteq> []"
  shows "validate_icsv C F validator files infile out_report =
           Inr \<lparr> vo_valid = False, vo_report_path = data_report_path infile out_report,
                 vo_files = files
                   (py_replace ''.icsv'' ''_metadata_report.txt'' infile \<mapsto>
                      concat (map (\<lambda>e. ''ERROR: '' @ e @ [CHR 0x0A])
                                  (check_metadata metadata fields_meta))
                      @ [CHR 0x0A] @ ''Please fix metadata issues above.'' @ [CHR 0x0A],
                    data_report_path infile out_report \<mapsto> abort_notice),
                 vo_steps = [] \<rparr>
      \<and> (distinct (map fst fields_meta) \<and> map_of fields_meta ''fields'' = Some fs \<and>
          map_of fields_meta ''types'' = Some ts \<and> ts \<noteq> [] \<and> length ts < length fs \<and>
          list_all (\<lambda>kv. fst kv = ''types'' \<or> \<not> inconsistent (length fs) kv) fields_meta
          \<longrightarrow> check_metadata metadata fields_meta =
                (if map_of metadata ''field_delimiter'' = None
                    \<or> map_of metadata ''field_delimiter'' = Some []
                 then [''Missing required metadata: field_delimiter''] else [])
                @ [inconsistency_error (length fs) (''types'', ts)])"
proof -
  have 3: "filter (inconsistent (length fs)) fields_meta = [(''types'', ts)]"
    if "distinct (map fst fields_meta)" "map_of fields_meta ''types'' = Some ts" "ts \<noteq> []"
      "length ts < length fs"
      "list_all (\<lambda>kv. fst kv = ''types'' \<or> \<not> inconsistent (length fs) kv) fields_meta"
    using that by (intro filter_single) (auto simp: inconsistent_def)
  have 4: "check_metadata metadata fields_meta =
                (if map_of metadata ''field_delimiter'' = None
                    \<or> map_of metadata ''field_delimiter'' = Some []
                 then [''Missing required metadata: field_delimiter''] else [])
                @ [inconsistency_error (length fs) (''types'', ts)]"
    if "distinct (map fst fields_meta)" "map_of fields_meta ''fields'' = Some fs"
      "map_of fields_meta ''types'' = Some ts" "ts \<noteq> []" "length ts < length fs"
      "list_all (\<lambda>kv. fst kv = ''types'' \<or> \<not> inconsistent (length fs) kv) fields_meta"
    unfolding check_metadata_split using 3[OF that(1) that(3-6)] that(2) by simp
  have gate: "validate_icsv C F validator files infile out_report =
           Inr \<lparr> vo_valid = False, vo_report_path = data_report_path infile out_report,
                 vo_files = files
                   (py_replace ''.icsv'' ''_metadata_report.txt'' infile \<mapsto>
                      concat (map (\<lambda>e. ''ERROR: '' @ e @ [CHR 0x0A])
                                  (check_metadata metadata fields_meta))
                      @ [CHR 0x0A] @ ''Please fix metadata issues above.'' @ [CHR 0x0A],
                    data_report_path infile out_report \<mapsto> abort_notice),
                 vo_steps = [] \<rparr>"
    using assms by (simp add: validate_icsv_def Let_def metadata_report_def)
  from gate 4 show ?thesis by blast
qed

theorem metadata_gate_witness:
  "[''x.icsv'' \<mapsto> short_types_icsv] ''x.icsv'' = Some short_types_icsv
   \<and> parse_icsv_metadata short_types_icsv
       = Inr ([(''field_delimiter'', ''|'')], [(''fields'', [''a'', ''b'']), (''types'', [''integer''])])
   \<and> check_metadata [(''field_delimiter'', ''|'')] [(''fields'', [''a'', ''b'']), (''types'', [''integer''])]
       = [inconsistency_error 2 (''types'', [''integer''])]
   \<and> map_sum id vo_steps
        (validate_icsv plain_csv micro_floats no_validator [''x.icsv'' \<mapsto> short_types_icsv] ''x.icsv'' None)
       = Inr []
   \<and> map_sum id vo_valid
        (validate_icsv plain_csv micro_floats no_validator [''x.icsv'' \<mapsto> short_types_icsv] ''x.icsv'' None)
       = Inr False"
proof -
  have f: "[''x.icsv'' \<mapsto> short_types_icsv] ''x.icsv'' = Some short_types_icsv" by simp
  have p: "parse_icsv_metadata short_types_icsv
       = Inr ([(''field_delimiter'', ''|'')], [(''fields'', [''a'', ''b'']), (''types'', [''integer''])])"
    by code_simp
  have c: "check_metadata [(''field_delimiter'', ''|'')] [(''fields'', [''a'', ''b'']), (''types'', [''integer''])]
       = [inconsistency_error 2 (''types'', [''integer''])]"
    by code_simp
  then have ne: "check_metadata [(''field_delimiter'', ''|'')]
       [(''fields'', [''a'', ''b'']), (''types'', [''integer''])] \<noteq> []"
    by simp
  from metadata_gate [where files = "[''x.icsv'' \<mapsto> short_types_icsv]" and infile = "''x.icsv''"
      and contents = short_types_icsv and metadata = "[(''field_delimiter'', ''|'')]"
      and fields_meta = "[(''fields'', [''a'', ''b'']), (''types'', [''integer''])]"
      and C = plain_csv and F = micro_floats and validator = no_validator and out_report = None
      and fs = "[''a'', ''b'']" and ts = "[''integer'']", OF f p ne]
  have "map_sum id vo_steps
        (validate_icsv plain_csv micro_floats no_validator [''x.icsv'' \<mapsto> short_types_icsv] ''x.icsv'' None)
       = Inr []
   \<and> map_sum id vo_valid
        (validate_icsv plain_csv micro_floats no_validator [''x.icsv'' \<mapsto> short_types_icsv] ''x.icsv'' None)
       = Inr False"
    by simp
  with f p c show ?thesis by blast
qed

text \<open>
  Claim C5 as it was stated, refuted.
  The claim as it was stated reports exactly one inconsistency error whenever \<open>types\<close>
  is non-empty and shorter than \<open>fields\<close>. The iCSV built from a comma-separated file
  whose first column is named \<open>a|b\<close> has three \<open>fields\<close> entries and two \<open>types\<close>
  entries, and its check reports five inconsistency errors, one for each other list.
\<close>

theorem five_inconsistency_errors:
  "parse_icsv_metadata (ib_text (make_icsv_from_csv sample_runtime pipe_header_csv None None None))
     = Inr (pipe_header_metadata, pipe_header_fields)
   \<and> map_of pipe_header_fields ''fields'' = Some [''a'', ''b'', ''c'']
   \<and> map_of pipe_header_fields ''types'' = Some [''integer'', ''integer'']
   \<and> check_metadata pipe_header_metadata pipe_header_fields
       = map (inconsistency_error 3) (tl pipe_header_fields)
   \<and> length (check_metadata pipe_header_metadata pipe_header_fields) = 5"
proof -
  have "map_of pipe_header_fields ''fields'' = Some [''a'', ''b'', ''c'']
   \<and> map_of pipe_header_fields ''types'' = Some [''integer'', ''integer'']
   \<and> check_metadata pipe_header_metadata pipe_header_fields
       = map (inconsistency_error 3) (tl pipe_header_fields)
   \<and> length (check_metadata pipe_header_metadata pipe_header_fields) = 5"
    by code_simp
  with pipe_header_parse show ?thesis by blast
qed

subsection \<open>Round trip of the FIELDS block\<close>

text \<open>
  Claim C2, at a failing input. The comma-separated file with the lines \<open>a|b,c\<close> and
  \<open>1,2\<close> has a header of two columns. The iCSV built from it joins the FIELDS lists with
  a vertical bar, and parsing it back gives \<open>columns = 2\<close> but a \<open>fields\<close> list of three
  entries beside lists of two.
\<close>

theorem roundtrip_pipe_header:
  "ib_header (make_icsv_from_csv sample_runtime pipe_header_csv None None None) = [''a|b'', ''c'']
   \<and> parse_icsv_metadata (ib_text (make_icsv_from_csv sample_runtime pipe_header_csv None None None))
       = Inr (pipe_header_metadata, pipe_header_fields)
   \<and> map_of pipe_header_metadata ''columns'' = Some ''2''
   \<and> map (\<lambda>kv. length (snd kv)) pipe_header_fields = [3, 2, 2, 2, 2, 2]"
proof -
  have 1: "ib_header (make_icsv_from_csv sample_runtime pipe_header_csv None None None) = [''a|b'', ''c'']"
    by code_simp
  have 2: "map_of pipe_header_metadata ''columns'' = Some ''2''
     \<and> map (\<lambda>kv. length (snd kv)) pipe_header_fields = [3, 2, 2, 2, 2, 2]"
    by code_simp
  from 1 2 pipe_header_parse show ?thesis by blast
qed

subsection \<open>The parts of a built iCSV\<close>

lemma make_icsv_parts:
  "load_rows_with_frictionless (csvs R) contents ud = (header, rows0, n) \<Longrightarrow>
   ib_nodata (make_icsv_from_csv R contents ud ov ap) = resolve_nodata ov rows0
   \<and> ib_delim (make_icsv_from_csv R contents ud ov ap) = choose_icsv_delim (csvs R) contents ud
   \<and> ib_header (make_icsv_from_csv R contents ud ov ap) = header
   \<and> ib_metadata_lines (make_icsv_from_csv R contents ud ov ap) =
       build_icsv_metadata_section (utcnow_iso R) (dunder_name R)
         (choose_icsv_delim (csvs R) contents ud) header n (Some (resolve_nodata ov rows0))
         (fst (detect_geometry_hint header)) (snd (detect_geometry_hint header)) ap"
  unfolding make_icsv_from_csv_def Let_def by simp

lemma make_icsv_col_infos:
  "load_rows_with_frictionless (csvs R) contents ud = (header, rows0, n) \<Longrightarrow>
   ib_col_infos (make_icsv_from_csv R contents ud ov ap) =
     map (\<lambda>(i, name). column_info (dates R) (floats R) name
            (column_cells (map (normalize_row (length header)) rows0) i))
         (enumerate 0 header)"
  unfolding make_icsv_from_csv_def Let_def by simp

lemma metadata_section_lines:
  "(''field_delimiter = '' @ fd) \<in> set (build_icsv_metadata_section now nm fd header n (Some v) g s ap)
   \<and> (''nodata = '' @ v) \<in> set (build_icsv_metadata_section now nm fd header n (Some v) g s ap)"
  by (simp add: build_icsv_metadata_section_def optional_line_def)

lemma sample_csvs: "csvs sample_runtime = plain_csv"
  by (simp add: sample_runtime_def)

subsection \<open>Delimiter resolution\<close>

lemma forced_delimiter_agrees:
  "load_detected C contents (Some d) = d
   \<and> choose_icsv_delim C contents (Some d) = (if d = '','' then ''|'' else d)"
  by (simp add: load_detected_def choose_icsv_delim_def)

lemma detected_delimiters:
  "load_detected C contents None = detect_delimiter C (first_lines 10 contents)
   \<and> choose_icsv_delim C contents None =
       (if detect_delimiter C (first_lines 5 contents) = '','' then ''|''
        else detect_delimiter C (first_lines 5 contents))"
  by (simp add: load_detected_def choose_icsv_delim_def)

text \<open>
  Claim C3, at a failing input. The rows of a file are read with the delimiter detected on
  its first ten lines, the output delimiter is chosen from the delimiter detected on its
  first five lines. For the file whose first five lines are separated by semicolons and
  whose later lines hold one cell, the rows are read with a comma and the recorded
  \<open>field_delimiter\<close> is the semicolon.
\<close>

theorem delimiter_samples_disagree:
  "load_detected plain_csv ragged_csv None = '',''
   \<and> choose_icsv_delim plain_csv ragged_csv None = '';''
   \<and> ib_header (make_icsv_from_csv sample_runtime ragged_csv None None None) = [''a;b'']
   \<and> ib_delim (make_icsv_from_csv sample_runtime ragged_csv None None None) = '';''
   \<and> ''field_delimiter = ;''
        \<in> set (ib_metadata_lines (make_icsv_from_csv sample_runtime ragged_csv None None None))"
proof -
  have 1: "load_detected plain_csv ragged_csv None = '',''" by code_simp
  have 2: "choose_icsv_delim plain_csv ragged_csv None = '';''" by code_simp
  have 3: "load_rows_with_frictionless (csvs sample_runtime) ragged_csv None
         = ([''a;b''],
            [[''1;2''], [''3;4''], [''5;6''], [''7;8''], [''9''], [''9''], [''9''], [''9''], [''9''], [''9'']],
            10)"
    by code_simp
  from make_icsv_parts [OF 3, of None None] 2
  have 4: "ib_header (make_icsv_from_csv sample_runtime ragged_csv None None None) = [''a;b'']
     \<and> ib_delim (make_icsv_from_csv sample_runtime ragged_csv None None None) = '';''"
    by (simp add: sample_csvs)
  from make_icsv_parts [OF 3, of None None] 2
    metadata_section_lines [of "'';''"]
  have 5: "''field_delimiter = ;''
        \<in> set (ib_metadata_lines (make_icsv_from_csv sample_runtime ragged_csv None None None))"
    by (simp add: sample_csvs)
  from 1 2 4 5 show ?thesis by blast
qed

subsection \<open>Nodata token\<close>

lemma dict_set_keys:
  "map fst (dict_set d k v) = (if k \<in> set (map fst d) then map fst d else map fst d @ [k])"
  by (induction d) (auto simp: rev_image_eqI)

lemma dict_set_lookup: "map_of (dict_set d k v) = (map_of d)(k \<mapsto> v)"
  by (induction d) (auto simp: fun_eq_iff)

lemma count_scan_invariant:
  "distinct (map fst (fold count_placeholder cells []))
   \<and> set (map fst (fold count_placeholder cells [])) = set cells \<inter> ENRICHMENT_COMMON_MISSING
   \<and> (\<forall>k \<in> set cells \<inter> ENRICHMENT_COMMON_MISSING.
         map_of (fold count_placeholder cells []) k = Some (count_list cells k))
   \<and> key_order (map fst (fold count_placeholder cells [])) cells"
proof (induction cells rule: rev_induct)
  case Nil
  then show ?case by (simp add: key_order_def)
next
  case (snoc x xs)
  define d where "d = fold count_placeholder xs []"
  from snoc have dist: "distinct (map fst d)"
    and keys: "set (map fst d) = set xs \<inter> ENRICHMENT_COMMON_MISSING"
    and cnt: "\<forall>k \<in> set xs \<inter> ENRICHMENT_COMMON_MISSING. map_of d k = Some (count_list xs k)"
    and ord: "key_order (map fst d) xs"
    by (simp_all add: d_def)
  have step: "fold count_placeholder (xs @ [x]) [] = count_placeholder x d"
    by (simp add: d_def)
  have tw: "takeWhile (\<lambda>c. c \<noteq> k) (xs @ [x]) = takeWhile (\<lambda>c. c \<noteq> k) xs" if "k \<in> set xs" for k
    using that by simp
  have ord_old: "key_order (map fst d) (xs @ [x])"
    unfolding key_order_def
  proof (intro allI impI)
    fix p k q assume e: "map fst d = p @ k # q"
    then have "k \<in> set (map fst d)" by simp
    with keys have "k \<in> set xs" by auto
    with ord e show "set q \<inter> set (takeWhile (\<lambda>c. c \<noteq> k) (xs @ [x])) = {}"
      by (simp add: tw key_order_def)
  qed
  show ?case
  proof (cases "x \<in> ENRICHMENT_COMMON_MISSING")
    case False
    then have "count_placeholder x d = d" by (simp add: count_placeholder_def)
    with False dist keys cnt ord_old show ?thesis
      unfolding step by auto
  next
    case True
    define n where "n = (case map_of d x of None \<Rightarrow> 0 | Some n \<Rightarrow> n) + 1"
    have cp: "count_placeholder x d = dict_set d x n"
      using True by (simp add: count_placeholder_def n_def)
    have n: "n = count_list (xs @ [x]) x"
    proof (cases "x \<in> set xs")
      case True
      with \<open>x \<in> ENRICHMENT_COMMON_MISSING\<close> cnt show ?thesis by (simp add: n_def)
    next
      case False
      with keys have "x \<notin> set (map fst d)" by auto
      then have "map_of d x = None" by (simp add: map_of_eq_None_iff)
      with False show ?thesis by (simp add: n_def)
    qed
    have 1: "distinct (map fst (dict_set d x n))"
      using dist by (simp add: dict_set_keys)
    have 2: "set (map fst (dict_set d x n)) = set (xs @ [x]) \<inter> ENRICHMENT_COMMON_MISSING"
      using keys True by (auto simp: dict_set_keys)
    have 3: "\<forall>k \<in> set (xs @ [x]) \<inter> ENRICHMENT_COMMON_MISSING.
               map_of (dict_set d x n) k = Some (count_list (xs @ [x]) k)"
      using cnt n by (auto simp: dict_set_lookup)
    have 4: "key_order (map fst (dict_set d x n)) (xs @ [x])"
    proof (cases "x \<in> set (map fst d)")
      case True
      then show ?thesis using ord_old by (simp add: dict_set_keys)
    next
      case False
      with keys \<open>x \<in> ENRICHMENT_COMMON_MISSING\<close> have xn: "x \<notin> set xs" by auto
      show ?thesis
        unfolding key_order_def
      proof (intro allI impI)
        fix p k q assume e: "map fst (dict_set d x n) = p @ k # q"
        with False have e': "map fst d @ [x] = p @ k # q" by (simp add: dict_set_keys)
        show "set q \<inter> set (takeWhile (\<lambda>c. c \<noteq> k) (xs @ [x])) = {}"
        proof (cases q rule: rev_cases)
          case Nil
          then show ?thesis by simp
        next
          case (snoc q' y)
          with e' have y: "y = x" and md: "map fst d = p @ k # q'" by auto
          then have "k \<in> set (map fst d)" by simp
          with keys have kx: "k \<in> set xs" by auto
          from ord md have "set q' \<inter> set (takeWhile (\<lambda>c. c \<noteq> k) xs) = {}"
            by (simp add: key_order_def)
          moreover have "x \<notin> set (takeWhile (\<lambda>c. c \<noteq> k) xs)"
            using xn by (auto dest: set_takeWhileD)
          ultimately show ?thesis using snoc y by (simp add: tw[OF kx])
        qed
      qed
    qed
    show ?thesis unfolding step cp using 1 2 3 4 by blast
  qed
qed

lemma max_item_first:
  "\<exists>pre post. first # rest = pre @ max_item first rest # post
     \<and> (\<forall>y \<in> set pre. snd y < snd (max_item first rest))
     \<and> (\<forall>y \<in> set post. snd y \<le> snd (max_item first rest))"
proof (induction rest rule: rev_induct)
  case Nil
  have "[first] = [] @ max_item first [] # []" by (simp add: max_item_def)
  then show ?case by fastforce
next
  case (snoc y ys)
  define r where "r = max_item first ys"
  from snoc obtain pre post where dec: "first # ys = pre @ r # post"
    and lt: "\<forall>z \<in> set pre. snd z < snd r" and le: "\<forall>z \<in> set post. snd z \<le> snd r"
    unfolding r_def by blast
  have step: "max_item first (ys @ [y]) = (if snd r < snd y then y else r)"
    by (simp add: max_item_def r_def)
  show ?case
  proof (cases "snd r < snd y")
    case True
    have a: "first # ys @ [y] = (first # ys) @ max_item first (ys @ [y]) # []"
      using True by (simp add: step)
    have "\<forall>z \<in> set (pre @ r # post). snd z < snd y"
      using lt le True by auto
    then have b: "\<forall>z \<in> set (first # ys). snd z < snd (max_item first (ys @ [y]))"
      using True by (simp add: step dec[symmetric])
    have c: "\<forall>z \<in> set ([] :: (string \<times> nat) list). snd z \<le> snd (max_item first (ys @ [y]))"
      by simp
    from a b c show ?thesis by blast
  next
    case False
    have a: "first # ys @ [y] = pre @ max_item first (ys @ [y]) # (post @ [y])"
      using dec False by (simp add: step)
    have b: "\<forall>z \<in> set pre. snd z < snd (max_item first (ys @ [y]))"
      using lt False by (simp add: step)
    have c: "\<forall>z \<in> set (post @ [y]). snd z \<le> snd (max_item first (ys @ [y]))"
      using le False by (auto simp: step)
    from a b c show ?thesis by blast
  qed
qed

lemma placeholder_counts_concat:
  "placeholder_counts rows = fold count_placeholder (concat rows) []"
  unfolding placeholder_counts_def by (induction rows rule: rev_induct) simp_all

lemma resolve_nodata_spec:
  "(filter (\<lambda>c. c \<in> ENRICHMENT_COMMON_MISSING) (concat rows) = [] \<longrightarrow> resolve_nodata None rows = [])
   \<and> list_all (\<lambda>u. resolve_nodata None rows \<in> set (concat rows) \<inter> ENRICHMENT_COMMON_MISSING
          \<and> count_list (concat rows) u \<le> count_list (concat rows) (resolve_nodata None rows)
          \<and> (count_list (concat rows) u = count_list (concat rows) (resolve_nodata None rows)
               \<longrightarrow> u \<notin> set (takeWhile (\<lambda>c. c \<noteq> resolve_nodata None rows) (concat rows))))
        (filter (\<lambda>c. c \<in> ENRICHMENT_COMMON_MISSING) (concat rows))"
proof -
  define cells where "cells = concat rows"
  define d where "d = fold count_placeholder cells []"
  have pc: "placeholder_counts rows = d"
    by (simp add: placeholder_counts_concat d_def cells_def)
  from count_scan_invariant[of cells]
  have dist: "distinct (map fst d)"
    and keys: "set (map fst d) = set cells \<inter> ENRICHMENT_COMMON_MISSING"
    and cnt: "\<forall>k \<in> set cells \<inter> ENRICHMENT_COMMON_MISSING. map_of d k = Some (count_list cells k)"
    and ord: "key_order (map fst d) cells"
    by (simp_all add: d_def)
  show ?thesis
  proof (cases d)
    case Nil
    with keys have "set cells \<inter> ENRICHMENT_COMMON_MISSING = {}" by simp
    then have "filter (\<lambda>c. c \<in> ENRICHMENT_COMMON_MISSING) cells = []"
      by (auto simp: filter_empty_conv)
    then show ?thesis
      using Nil by (simp add: resolve_nodata_def pc cells_def[symmetric])
  next
    case (Cons kv rest)
    define r where "r = max_item kv rest"
    have res: "resolve_nodata None rows = fst r"
      by (simp add: resolve_nodata_def pc Cons r_def)
    from max_item_first[of kv rest] obtain pre post where dec: "d = pre @ r # post"
      and lt: "\<forall>y \<in> set pre. snd y < snd r" and le: "\<forall>y \<in> set post. snd y \<le> snd r"
      unfolding r_def Cons by blast
    have rin: "r \<in> set d" using dec by simp
    then have rk: "fst r \<in> set cells \<inter> ENRICHMENT_COMMON_MISSING"
      using keys by (metis image_eqI set_map)
    have val: "snd y = count_list cells (fst y)" if "y \<in> set d" for y
    proof -
      from that have "fst y \<in> set cells \<inter> ENRICHMENT_COMMON_MISSING"
        using keys by (metis image_eqI set_map)
      with cnt have "map_of d (fst y) = Some (count_list cells (fst y))" by blast
      moreover from that dist have "map_of d (fst y) = Some (snd y)" by simp
      ultimately show ?thesis by simp
    qed
    have main: "count_list cells u \<le> count_list cells (fst r)
          \<and> (count_list cells u = count_list cells (fst r)
               \<longrightarrow> u \<notin> set (takeWhile (\<lambda>c. c \<noteq> fst r) cells))"
      if u: "u \<in> set cells" "u \<in> ENRICHMENT_COMMON_MISSING" for u
    proof -
      from u keys obtain y where y: "y \<in> set d" "fst y = u" by (metis IntI imageE set_map)
      from y(1) dec consider "y \<in> set pre" | "y = r" | "y \<in> set post" by auto
      then show ?thesis
      proof cases
        case 1
        with lt have "snd y < snd r" by blast
        then show ?thesis using val[OF y(1)] val[OF rin] y(2) by simp
      next
        case 2
        then show ?thesis using y(2) by (auto dest: set_takeWhileD)
      next
        case 3
        with le have "snd y \<le> snd r" by blast
        moreover have "map fst d = map fst pre @ fst r # map fst post" using dec by simp
        with ord have "set (map fst post) \<inter> set (takeWhile (\<lambda>c. c \<noteq> fst r) cells) = {}"
          unfolding key_order_def by blast
        with 3 y(2) have "u \<notin> set (takeWhile (\<lambda>c. c \<noteq> fst r) cells)" by auto
        ultimately show ?thesis using val[OF y(1)] val[OF rin] y(2) by simp
      qed
    qed
    have ne: "filter (\<lambda>c. c \<in> ENRICHMENT_COMMON_MISSING) cells \<noteq> []"
      using rk by (auto simp: filter_empty_conv)
    show ?thesis
      unfolding cells_def[symmetric] res
      using ne rk main by (auto simp: list_all_iff)
  qed
qed

text \<open>
  Claim C6, as amended. The METADATA block built for a CSV input always holds the line
  \<open>nodata = <token>\<close>, also when the token is empty. The token is the override when one
  is given. Without an override it is the empty string when no data cell is a member of
  the missing-value set; otherwise it is an observed member that no observed member
  outnumbers, and an observed member that occurs as often does not occur before it in
  the row-major order of the cells.
\<close>

theorem nodata_line_and_token:
  assumes "load_rows_with_frictionless (csvs R) contents ud = (header, rows0, n)"
  shows "(''nodata = '' @ ib_nodata (make_icsv_from_csv R contents ud ov ap))
           \<in> set (ib_metadata_lines (make_icsv_from_csv R contents ud ov ap))
     \<and> ib_nodata (make_icsv_from_csv R contents ud ov ap)
         = (case ov of Some v \<Rightarrow> v | None \<Rightarrow> resolve_nodata None rows0)
     \<and> (filter (\<lambda>c. c \<in> ENRICHMENT_COMMON_MISSING) (concat rows0) = []
          \<longrightarrow> resolve_nodata None rows0 = [])
     \<and> list_all (\<lambda>u. resolve_nodata None rows0 \<in> set (concat rows0) \<inter> ENRICHMENT_COMMON_MISSING
          \<and> count_list (concat rows0) u \<le> count_list (concat rows0) (resolve_nodata None rows0)
          \<and> (count_list (concat rows0) u = count_list (concat rows0) (resolve_nodata None rows0)
               \<longrightarrow> u \<notin> set (takeWhile (\<lambda>c. c \<noteq> resolve_nodata None rows0) (concat rows0))))
        (filter (\<lambda>c. c \<in> ENRICHMENT_COMMON_MISSING) (concat rows0))"
proof -
  have 1: "(''nodata = '' @ ib_nodata (make_icsv_from_csv R contents ud ov ap))
           \<in> set (ib_metadata_lines (make_icsv_from_csv R contents ud ov ap))"
    using make_icsv_parts[OF assms, of ov ap] metadata_section_lines by simp
  have 2: "ib_nodata (make_icsv_from_csv R contents ud ov ap)
         = (case ov of Some v \<Rightarrow> v | None \<Rightarrow> resolve_nodata None rows0)"
    using make_icsv_parts[OF assms, of ov ap]
    by (cases ov) (simp_all add: resolve_nodata_def)
  from 1 2 resolve_nodata_spec[of rows0] show ?thesis by blast
qed

theorem nodata_line_and_token_witness:
  "load_rows_with_frictionless (csvs sample_runtime) tie_csv None
     = ([''a'', ''b''], [[''NA'', []], [[], ''NA'']], 2)
   \<and> ib_nodata (make_icsv_from_csv sample_runtime tie_csv None None None) = ''NA''
   \<and> ''nodata = NA'' \<in> set (ib_metadata_lines (make_icsv_from_csv sample_runtime tie_csv None None None))
   \<and> ib_nodata (make_icsv_from_csv sample_runtime tie_csv None (Some ''-1'') None) = ''-1''
   \<and> filter (\<lambda>c. c \<in> ENRICHMENT_COMMON_MISSING) (concat [[''NA'', []], [[], ''NA'']])
       = [''NA'', [], [], ''NA'']
   \<and> count_list (concat [[''NA'', []], [[], ''NA'']]) [] = 2
   \<and> count_list (concat [[''NA'', []], [[], ''NA'']]) ''NA'' = 2"
proof -
  have l: "load_rows_with_frictionless (csvs sample_runtime) tie_csv None
     = ([''a'', ''b''], [[''NA'', []], [[], ''NA'']], 2)"
    by code_simp
  have r: "resolve_nodata None [[''NA'', []], [[], ''NA'']] = ''NA''"
    by code_simp
  have c: "filter (\<lambda>c. c \<in> ENRICHMENT_COMMON_MISSING) (concat [[''NA'', []], [[], ''NA'']])
       = [''NA'', [], [], ''NA'']
   \<and> count_list (concat [[''NA'', []], [[], ''NA'']]) [] = 2
   \<and> count_list (concat [[''NA'', []], [[], ''NA'']]) ''NA'' = 2"
    by code_simp
  note t1 = nodata_line_and_token [OF l, of None None]
  note t2 = nodata_line_and_token [OF l, of "Some ''-1''" None]
  from t1 r have n1: "ib_nodata (make_icsv_from_csv sample_runtime tie_csv None None None) = ''NA''"
    by simp
  from t1 have "(''nodata = '' @ ib_nodata (make_icsv_from_csv sample_runtime tie_csv None None None))
      \<in> set (ib_metadata_lines (make_icsv_from_csv sample_runtime tie_csv None None None))"
    by blast
  then have n2: "''nodata = NA''
      \<in> set (ib_metadata_lines (make_icsv_from_csv sample_runtime tie_csv None None None))"
    unfolding n1 by simp
  from t2 have n3: "ib_nodata (make_icsv_from_csv sample_runtime tie_csv None (Some ''-1'') None) = ''-1''"
    by simp
  from n1 n2 n3
  have "ib_nodata (make_icsv_from_csv sample_runtime tie_csv None None None) = ''NA''
   \<and> ''nodata = NA'' \<in> set (ib_metadata_lines (make_icsv_from_csv sample_runtime tie_csv None None None))
   \<and> ib_nodata (make_icsv_from_csv sample_runtime tie_csv None (Some ''-1'') None) = ''-1''"
    by blast
  with l c show ?thesis by blast
qed

text \<open>
  Claim C6 as it was stated, refuted.
  The claim as it was stated has the \<open>nodata\<close> line present only for a non-empty token.
  A file without any missing-value token resolves to the empty token, and the line is
  written all the same.
\<close>

theorem empty_nodata_line_present:
  "ib_nodata (make_icsv_from_csv sample_runtime plain_pair_csv None None None) = []
   \<and> ''nodata = ''
        \<in> set (ib_metadata_lines (make_icsv_from_csv sample_runtime plain_pair_csv None None None))"
proof -
  have l: "load_rows_with_frictionless (csvs sample_runtime) plain_pair_csv None
     = ([''a'', ''b''], [[''1'', ''2'']], 1)"
    by code_simp
  have r: "resolve_nodata None [[''1'', ''2'']] = []"
    by code_simp
  from make_icsv_parts [OF l, of None None] r metadata_section_lines [of _ _ _ _ _ "[]"]
  show ?thesis by simp
qed

end
